theory Spec2Isabelle
  imports Complex_Main
begin

section \<open>Reddit persona analyzer: the persona inference engine\<close>

text \<open>
  The engine is the pair of functions \<open>generatePersona\<close> and \<open>formatPersonaAsText\<close>
  of the server file. The embedding follows the JavaScript line by line.

  Conventions of the embedding:
  \<^item> a JavaScript string is a \<open>string\<close>; a \<open>char\<close> stands for one UTF-16 code unit
    below 256, so \<open>length\<close> is the JavaScript \<open>.length\<close> on such strings;
  \<^item> a raw Reddit record is a record of optional fields: \<open>None\<close> is a field that is
    \<open>undefined\<close> or \<open>null\<close>, \<open>Some s\<close> a field holding the string \<open>s\<close>; a score
    is the integer written in the Reddit JSON, which the program holds as the double
    nearest to it;
  \<^item> the arithmetic on scores is the arithmetic of IEEE 754 doubles, rounding to
    nearest with ties to even after every operation;
  \<^item> an array length, a count of items and a confidence are natural numbers: an array
    holds fewer than \<open>2^32\<close> elements, so these numbers are exact as doubles and print
    in plain decimal digits;
  \<^item> \<open>Array.prototype.sort\<close> belongs to the JavaScript engine, not to the program: it
    is an argument of \<open>generatePersona\<close>, and what the language standard requires of it
    is the predicate \<open>conforms\<close>;
  \<^item> the ambient clock read by the renderer (\<open>new Date().toISOString()\<close>) is an
    explicit argument.
\<close>

subsection \<open>Numbers\<close>

text \<open>
  A JavaScript number: a finite double, given by its exact value, an infinity or NaN.
  The two zeros are one value here: the program never divides by a zero, \<open>||\<close> takes
  both for falsy and a template literal prints both as \<open>0\<close>, so the program cannot
  tell them apart.
\<close>

datatype double = Finite rat | PosInfinity | NegInfinity | NaN

text \<open>Powers of 2 and of 10 with an integer exponent.\<close>

definition pow2 :: "int \<Rightarrow> rat" where
  "pow2 e = (if 0 \<le> e then 2 ^ nat e else 1 / 2 ^ nat (- e))"

definition pow10 :: "int \<Rightarrow> rat" where
  "pow10 e = (if 0 \<le> e then 10 ^ nat e else 1 / 10 ^ nat (- e))"

text \<open>The number of binary and of decimal digits of a natural number (0 for 0).\<close>

fun bit_length :: "nat \<Rightarrow> nat" where
  "bit_length n = (if n = 0 then 0 else Suc (bit_length (n div 2)))"

declare bit_length.simps [simp del]

fun digit_count :: "nat \<Rightarrow> nat" where
  "digit_count n = (if n = 0 then 0 else Suc (digit_count (n div 10)))"

declare digit_count.simps [simp del]

text \<open>
  For a positive \<open>x\<close>: the integer \<open>e\<close> with \<open>2^e \<le> x < 2^(e + 1)\<close>, and the same to
  base 10.
\<close>

definition ilog2 :: "rat \<Rightarrow> int" where
  "ilog2 x =
     (if 1 \<le> x then int (bit_length (nat \<lfloor>x\<rfloor>)) - 1
      else - int (bit_length (nat \<lceil>1 / x\<rceil> - 1)))"

definition ilog10 :: "rat \<Rightarrow> int" where
  "ilog10 x =
     (if 1 \<le> x then int (digit_count (nat \<lfloor>x\<rfloor>)) - 1
      else - int (digit_count (nat \<lceil>1 / x\<rceil> - 1)))"

text \<open>Rounding to the nearest integer, a tie to the even one.\<close>

definition round_half_even :: "rat \<Rightarrow> int" where
  "round_half_even r =
     (let f = \<lfloor>r\<rfloor>; d = r - of_int f
      in if d < 1 / 2 then f else if 1 / 2 < d then f + 1 else if even f then f else f + 1)"

text \<open>
  \<open>fl x\<close> is the double that an operation with the exact result \<open>x\<close> returns: \<open>x\<close> is
  rounded to 53 significant bits (to a multiple of \<open>2^-1074\<close> in the subnormal range),
  and a result of magnitude \<open>2^1024\<close> or more is an infinity.
\<close>

definition fl :: "rat \<Rightarrow> double" where
  "fl x =
     (if x = 0 then Finite 0
      else
        let q = max (ilog2 \<bar>x\<bar> - 52) (- 1074);
            y = of_int (round_half_even (\<bar>x\<bar> / pow2 q)) * pow2 q
        in if 2 ^ 1024 \<le> y then (if 0 < x then PosInfinity else NegInfinity)
           else Finite (if 0 < x then y else - y))"

text \<open>\<open>x + y\<close> and \<open>x * y\<close> on doubles.\<close>

fun dadd :: "double \<Rightarrow> double \<Rightarrow> double" where
  "dadd (Finite a) (Finite b) = fl (a + b)"
| "dadd NaN y = NaN"
| "dadd x NaN = NaN"
| "dadd PosInfinity NegInfinity = NaN"
| "dadd NegInfinity PosInfinity = NaN"
| "dadd PosInfinity y = PosInfinity"
| "dadd NegInfinity y = NegInfinity"
| "dadd x PosInfinity = PosInfinity"
| "dadd x NegInfinity = NegInfinity"

fun dmul :: "double \<Rightarrow> double \<Rightarrow> double" where
  "dmul (Finite a) (Finite b) = fl (a * b)"
| "dmul NaN y = NaN"
| "dmul x NaN = NaN"
| "dmul PosInfinity (Finite b) =
     (if b = 0 then NaN else if 0 < b then PosInfinity else NegInfinity)"
| "dmul NegInfinity (Finite b) =
     (if b = 0 then NaN else if 0 < b then NegInfinity else PosInfinity)"
| "dmul (Finite a) PosInfinity =
     (if a = 0 then NaN else if 0 < a then PosInfinity else NegInfinity)"
| "dmul (Finite a) NegInfinity =
     (if a = 0 then NaN else if 0 < a then NegInfinity else PosInfinity)"
| "dmul PosInfinity PosInfinity = PosInfinity"
| "dmul NegInfinity NegInfinity = PosInfinity"
| "dmul PosInfinity NegInfinity = NegInfinity"
| "dmul NegInfinity PosInfinity = NegInfinity"

text \<open>
  \<open>x / n\<close> for a positive integer \<open>n\<close>: the program divides by the length of a
  non-empty array and by 100 only.
\<close>

fun ddiv :: "double \<Rightarrow> nat \<Rightarrow> double" where
  "ddiv (Finite a) n = fl (a / of_nat n)"
| "ddiv x n = x"

text \<open>\<open>Math.round\<close>: the nearest integer, a tie towards \<open>+\<infinity>\<close>; computed exactly.\<close>

fun Math_round :: "double \<Rightarrow> double" where
  "Math_round (Finite a) = Finite (of_int \<lfloor>a + 1 / 2\<rfloor>)"
| "Math_round x = x"

text \<open>The sign of a comparator's result; NaN has none.\<close>

fun positive :: "double \<Rightarrow> bool" where
  "positive (Finite a) = (0 < a)"
| "positive PosInfinity = True"
| "positive x = False"

fun negative :: "double \<Rightarrow> bool" where
  "negative (Finite a) = (a < 0)"
| "negative NegInfinity = True"
| "negative x = False"

subsection \<open>Raw records\<close>

record item =
  title :: "string option"
  body :: "string option"
  subreddit :: "string option"
  score :: "int option"

record data =
  posts :: "item list"
  comments :: "item list"

subsection \<open>String primitives\<close>

text \<open>\<open>x || d\<close> on an optional string: the empty string, \<open>undefined\<close> and \<open>null\<close> are falsy.\<close>

definition or_else :: "string option \<Rightarrow> string \<Rightarrow> string" where
  "or_else x d = (case x of None \<Rightarrow> d | Some s \<Rightarrow> if s = [] then d else s)"

text \<open>\<open>item.title || item.body || ''\<close>\<close>

definition item_text :: "item \<Rightarrow> string" where
  "item_text it = or_else (title it) (or_else (body it) [])"

text \<open>\<open>comment.body || ''\<close>\<close>

definition body_text :: "item \<Rightarrow> string" where
  "body_text it = or_else (body it) []"

text \<open>
  \<open>item.score || 0\<close>: the double of the score; a missing score and the score 0 both
  give 0.
\<close>

definition score_or_zero :: "item \<Rightarrow> double" where
  "score_or_zero it = (case score it of None \<Rightarrow> Finite 0 | Some n \<Rightarrow> fl (of_int n))"

text \<open>
  \<open>toLowerCase\<close> on code units below 256: the ASCII capitals and the Latin-1 capitals
  (0xC0 to 0xDE without the multiplication sign 0xD7) move up by 32.
\<close>

definition lower_char :: "char \<Rightarrow> char" where
  "lower_char c =
     (let n = (of_char c :: nat)
      in if (65 \<le> n \<and> n \<le> 90) \<or> (192 \<le> n \<and> n \<le> 222 \<and> n \<noteq> 215)
         then char_of (n + 32) else c)"

definition toLowerCase :: "string \<Rightarrow> string" where
  "toLowerCase s = map lower_char s"

text \<open>\<open>s.includes(k)\<close>: \<open>k\<close> occurs in \<open>s\<close> as a contiguous run.\<close>

definition startsWith :: "string \<Rightarrow> string \<Rightarrow> bool" where
  "startsWith s k = (take (length k) s = k)"

fun includes_str :: "string \<Rightarrow> string \<Rightarrow> bool" where
  "includes_str [] k = (k = [])"
| "includes_str (c # cs) k = (startsWith (c # cs) k \<or> includes_str cs k)"

text \<open>\<open>keywords.some(keyword => s.toLowerCase().includes(keyword))\<close>\<close>

definition some_keyword :: "string list \<Rightarrow> string \<Rightarrow> bool" where
  "some_keyword keywords s = list_ex (\<lambda>keyword. includes_str (toLowerCase s) keyword) keywords"

text \<open>\<open>s.substring(0, n) + '...'\<close>\<close>

definition snippet :: "nat \<Rightarrow> string \<Rightarrow> string" where
  "snippet n s = take n s @ ''...''"

text \<open>Decimal rendering of a non-negative integer, as a template literal prints it.\<close>

definition digit :: "nat \<Rightarrow> char" where
  "digit n = ''0123456789'' ! (n mod 10)"

fun show_nat :: "nat \<Rightarrow> string" where
  "show_nat n = (if n < 10 then [digit n] else show_nat (n div 10) @ [digit n])"

declare show_nat.simps [simp del]

text \<open>\<open>xs.join(', ')\<close>\<close>

fun join :: "string \<Rightarrow> string list \<Rightarrow> string" where
  "join sep [] = []"
| "join sep [x] = x"
| "join sep (x # y # ys) = x @ sep @ join sep (y # ys)"

subsection \<open>The counting object\<close>

text \<open>
  \<open>subredditCounts = {}\<close> is an ordinary object used as a dictionary. It is modelled by
  the list of its own properties in order of creation. A property holds what the
  statement \<open>subredditCounts[k] = (subredditCounts[k] || 0) + 1\<close> stores: a number or,
  for a key that the object inherits, a string.
\<close>

datatype jsval = JNum nat | JStr string

type_synonym counts = "(string \<times> jsval) list"

text \<open>
  Every ordinary object inherits eleven functions from \<open>Object.prototype\<close>. The first
  read of \<open>subredditCounts[k]\<close> for such a key \<open>k\<close> returns the function, which is truthy;
  \<open>+ 1\<close> turns it into its source text followed by \<open>1\<close>, and this string is stored as
  an own property. The source text of a native function is
  \<open>function NAME() { [native code] }\<close>; the function under the key \<open>constructor\<close> is
  named \<open>Object\<close>.
\<close>

definition function_names :: "string list" where
  "function_names =
     [''constructor'', ''__defineGetter__'', ''__defineSetter__'', ''hasOwnProperty'',
      ''__lookupGetter__'', ''__lookupSetter__'', ''isPrototypeOf'',
      ''propertyIsEnumerable'', ''toString'', ''valueOf'', ''toLocaleString'']"

definition function_text :: "string \<Rightarrow> string" where
  "function_text k =
     ''function '' @ (if k = ''constructor'' then ''Object'' else k) @ ''() { [native code] }''"

text \<open>
  The value stored for a key that is not yet an own property, and the value stored
  over an own one (an own number is at least 1 and an own string is not empty, so both
  are truthy).
\<close>

definition first_value :: "string \<Rightarrow> jsval" where
  "first_value k = (if k \<in> set function_names then JStr (function_text k @ ''1'') else JNum 1)"

fun increment :: "jsval \<Rightarrow> jsval" where
  "increment (JNum n) = JNum (n + 1)"
| "increment (JStr s) = JStr (s @ ''1'')"

text \<open>
  \<open>bump\<close> is the statement \<open>subredditCounts[k] = (subredditCounts[k] || 0) + 1\<close>. The
  key \<open>__proto__\<close> is the inherited accessor of the prototype: the read returns
  \<open>Object.prototype\<close>, and the assignment of the string \<open>[object Object]1\<close> calls the
  setter, which ignores a value that is not an object. Nothing is stored.
\<close>

fun bump :: "counts \<Rightarrow> string \<Rightarrow> counts" where
  "bump [] k = (if k = ''__proto__'' then [] else [(k, first_value k)])"
| "bump ((k', v) # kvs) k =
     (if k' = k then (k', increment v) # kvs else (k', v) # bump kvs k)"

text \<open>
  The property key of an item: the subreddit string. A missing subreddit would be
  counted under the key \<open>undefined\<close>; every such run of the function throws later, before
  the counts reach a result.
\<close>

definition subreddit_key :: "item \<Rightarrow> string" where
  "subreddit_key it = (case subreddit it of None \<Rightarrow> ''undefined'' | Some s \<Rightarrow> s)"

definition count_subreddits :: "item list \<Rightarrow> counts" where
  "count_subreddits allContent = foldl (\<lambda>acc it. bump acc (subreddit_key it)) [] allContent"

text \<open>
  \<open>Object.entries\<close> enumerates own properties in the order of the language standard:
  first the keys that are array indices (canonical decimal numerals below \<open>2^32 - 1\<close>),
  in ascending numeric order, then the remaining string keys in order of creation.
\<close>

definition is_digit :: "char \<Rightarrow> bool" where
  "is_digit c = (48 \<le> (of_char c :: nat) \<and> (of_char c :: nat) \<le> 57)"

definition index_value :: "string \<Rightarrow> nat" where
  "index_value s = foldl (\<lambda>acc c. 10 * acc + ((of_char c :: nat) - 48)) 0 s"

definition is_array_index :: "string \<Rightarrow> bool" where
  "is_array_index s =
     (s \<noteq> [] \<and> list_all is_digit s \<and> (s = ''0'' \<or> hd s \<noteq> CHR ''0'')
      \<and> length s \<le> 10 \<and> index_value s < 4294967295)"

definition object_entries :: "counts \<Rightarrow> counts" where
  "object_entries obj =
     sort_key (\<lambda>kv. index_value (fst kv)) (filter (\<lambda>kv. is_array_index (fst kv)) obj)
     @ filter (\<lambda>kv. \<not> is_array_index (fst kv)) obj"

text \<open>
  The comparator \<open>([,a], [,b]) => b - a\<close>. The difference of two counts is exact; a
  stored string is not the text of a number, so a difference with it is NaN.
\<close>

fun minus_jsval :: "jsval \<Rightarrow> jsval \<Rightarrow> double" where
  "minus_jsval (JNum b) (JNum a) = Finite (of_int (int b - int a))"
| "minus_jsval b a = NaN"

definition compare_counts :: "string \<times> jsval \<Rightarrow> string \<times> jsval \<Rightarrow> double" where
  "compare_counts x y = minus_jsval (snd y) (snd x)"

text \<open>
  \<open>Array.prototype.sort\<close>, as an argument of the program: a function from a comparator
  and an array to the sorted array.
\<close>

type_synonym sorter =
  "(string \<times> jsval \<Rightarrow> string \<times> jsval \<Rightarrow> double) \<Rightarrow> counts \<Rightarrow> counts"

subsection \<open>The result\<close>

text \<open>
  The objects of the result. The source's field names \<open>type\<close> and \<open>subreddit\<close> occur
  in several objects; here each record has its own: \<open>type_ev\<close> and \<open>subreddit_ev\<close> in
  an evidence object, \<open>subreddit_in\<close> in an interest entry.
\<close>

record Evidence =
  type_ev :: string
  content :: string
  subreddit_ev :: string

record PersonaTrait =
  trait :: string
  evidence :: "Evidence list"
  confidence :: nat

record InterestEntry =
  subreddit_in :: string
  count :: jsval

text \<open>
  The degenerate result has no \<open>interests\<close> key and no \<open>mostActiveSubreddits\<close> key: both
  fields are optional in the object that the function returns.
\<close>

record Engagement =
  totalPosts :: nat
  totalComments :: nat
  avgScore :: double
  mostActiveSubreddits :: "(string \<times> jsval) list option"

record PersonaResult =
  username :: string
  summary :: string
  interests :: "InterestEntry list option"
  traits :: "PersonaTrait list"
  engagement :: Engagement

text \<open>
  The only exception of the function: the \<open>TypeError\<close> of
  \<open>item.subreddit.toLowerCase()\<close> on a missing subreddit.
\<close>

datatype failure = TypeError

subsection \<open>The rule catalog\<close>

definition helpfulKeywords :: "string list" where
  "helpfulKeywords =
     [''help'', ''advice'', ''suggestion'', ''recommend'', ''try this'', ''solution'']"

definition techKeywords :: "string list" where
  "techKeywords =
     [''code'', ''programming'', ''software'', ''tech'', ''development'', ''algorithm'']"

definition creativeSubreddits :: "string list" where
  "creativeSubreddits =
     [''art'', ''music'', ''writing'', ''photography'', ''design'', ''creative'']"

text \<open>
  The evidence object of the first three rules:
  \<open>{type: item.title ? 'post' : 'comment',
     content: (item.title || item.body || '').substring(0, 100) + '...',
     subreddit: item.subreddit}\<close>
\<close>

definition item_evidence :: "item \<Rightarrow> Evidence" where
  "item_evidence it =
     \<lparr>type_ev = (if or_else (title it) [] \<noteq> [] then ''post'' else ''comment''),
      content = snippet 100 (item_text it),
      subreddit_ev = subreddit_key it\<rparr>"

text \<open>
  The evidence object of the fourth rule:
  \<open>{type: 'comment', content: (item.body || '').substring(0, 150) + '...',
     subreddit: item.subreddit}\<close>
\<close>

definition comment_evidence :: "item \<Rightarrow> Evidence" where
  "comment_evidence it =
     \<lparr>type_ev = ''comment'',
      content = snippet 150 (body_text it),
      subreddit_ev = subreddit_key it\<rparr>"

text \<open>
  \<open>allContent.filter(item => creativeSubreddits.some(sub =>
     item.subreddit.toLowerCase().includes(sub)))\<close>:
  the callback dereferences \<open>item.subreddit\<close> on every item, so the filter throws at
  the first item without a subreddit.
\<close>

fun creative_filter :: "item list \<Rightarrow> failure + item list" where
  "creative_filter [] = Inr []"
| "creative_filter (it # its) =
     (case subreddit it of
        None \<Rightarrow> Inl TypeError
      | Some s \<Rightarrow>
          (case creative_filter its of
             Inl e \<Rightarrow> Inl e
           | Inr rest \<Rightarrow> Inr (if some_keyword creativeSubreddits s then it # rest else rest)))"

subsection \<open>\<open>generatePersona\<close>\<close>

definition generatePersona :: "sorter \<Rightarrow> string \<Rightarrow> data \<Rightarrow> failure + PersonaResult" where
  "generatePersona array_sort name d =
     (let allContent = posts d @ comments d in
      if length allContent = 0 then
        Inr \<lparr>username = name,
             summary = ''No public posts or comments found for analysis.'',
             interests = None,
             traits = [],
             engagement = \<lparr>totalPosts = 0, totalComments = 0, avgScore = Finite 0,
                           mostActiveSubreddits = None\<rparr>\<rparr>
      else
        let subredditCounts = count_subreddits allContent;
            topSubreddits =
              take 5 (array_sort compare_counts (object_entries subredditCounts));
            traits0 = [];
            helpfulContent =
              filter (\<lambda>it. some_keyword helpfulKeywords (item_text it)) allContent;
            traits1 =
              (if length helpfulContent > 3
               then traits0 @
                 [\<lparr>trait = ''Helpful and Supportive'',
                   evidence = map item_evidence (take 2 helpfulContent),
                   confidence = min (length helpfulContent * 10) 100\<rparr>]
               else traits0);
            techContent =
              filter (\<lambda>it. some_keyword techKeywords (item_text it)) allContent;
            traits2 =
              (if length techContent > 2
               then traits1 @
                 [\<lparr>trait = ''Technology Enthusiast'',
                   evidence = map item_evidence (take 2 techContent),
                   confidence = min (length techContent * 15) 100\<rparr>]
               else traits1)
        in case creative_filter allContent of
             Inl e \<Rightarrow> Inl e
           | Inr creativeContent \<Rightarrow>
               let traits3 =
                     (if length creativeContent > 1
                      then traits2 @
                        [\<lparr>trait = ''Creative and Artistic'',
                          evidence = map item_evidence (take 2 creativeContent),
                          confidence = min (length creativeContent * 20) 100\<rparr>]
                      else traits2);
                   totalScore =
                     foldl (\<lambda>sum it. dadd sum (score_or_zero it)) (Finite 0) allContent;
                   avg = ddiv totalScore (length allContent);
                   longComments = filter (\<lambda>c. length (body_text c) > 200) (comments d);
                   traits4 =
                     (if length longComments > 5
                      then traits3 @
                        [\<lparr>trait = ''Thoughtful Communicator'',
                          evidence = map comment_evidence (take 2 longComments),
                          confidence = min (length longComments * 8) 100\<rparr>]
                      else traits3)
               in Inr \<lparr>username = name,
                    summary =
                      ''Active Reddit user with '' @ show_nat (length (posts d))
                      @ '' posts and '' @ show_nat (length (comments d))
                      @ '' comments. Primary interests include ''
                      @ join '', '' (map fst (take 3 topSubreddits)) @ ''.'',
                    interests =
                      Some (map (\<lambda>(s, c). \<lparr>subreddit_in = s, count = c\<rparr>) topSubreddits),
                    traits = traits4,
                    engagement =
                      \<lparr>totalPosts = length (posts d),
                       totalComments = length (comments d),
                       avgScore = ddiv (Math_round (dmul avg (Finite 100))) 100,
                       mostActiveSubreddits = Some (take 3 topSubreddits)\<rparr>\<rparr>)"

subsection \<open>\<open>formatPersonaAsText\<close>\<close>

text \<open>
  \<open>Number::toString\<close>, as a template literal prints a number. For a positive double
  \<open>x\<close> the standard takes the shortest decimal numeral \<open>s * 10^(n - k)\<close>, of \<open>k\<close>
  digits, that the double arithmetic reads back as \<open>x\<close>; of two such numerals, the one
  nearer to \<open>x\<close>. A double needs at most 17 digits. \<open>candidate x n k\<close> tries the two
  \<open>k\<close>-digit numerals around \<open>x\<close>.
\<close>

definition candidate :: "rat \<Rightarrow> int \<Rightarrow> nat \<Rightarrow> nat option" where
  "candidate x n k =
     (let scale = pow10 (n - int k);
          lo = nat \<lfloor>x / scale\<rfloor>;
          hi = lo + 1;
          ok_lo = (fl (of_nat lo * scale) = Finite x);
          ok_hi = (fl (of_nat hi * scale) = Finite x)
      in if ok_lo \<and> ok_hi
         then (if x - of_nat lo * scale < of_nat hi * scale - x then Some lo
               else if of_nat hi * scale - x < x - of_nat lo * scale then Some hi
               else if even lo then Some lo else Some hi)
         else if ok_lo then Some lo
         else if ok_hi then Some hi
         else None)"

fun shortest :: "nat \<Rightarrow> rat \<Rightarrow> int \<Rightarrow> nat \<Rightarrow> nat \<times> nat" where
  "shortest 0 x n k = (nat \<lfloor>x / pow10 (n - int k)\<rfloor>, k)"
| "shortest (Suc fuel) x n k =
     (case candidate x n k of
        Some s \<Rightarrow> (s, k)
      | None \<Rightarrow> shortest fuel x n (k + 1))"

text \<open>
  The layout of the digits: plain up to 21 integer digits, \<open>0.000ddd\<close> down to
  \<open>10^-7\<close>, otherwise with an exponent.
\<close>

definition positive_toString :: "rat \<Rightarrow> string" where
  "positive_toString x =
     (let n0 = ilog10 x + 1;
          (s0, k0) = shortest 17 x n0 1;
          (s, k, n) = (if s0 = 10 ^ k0 then (1, 1, n0 + 1) else (s0, k0, n0));
          ds = show_nat s;
          e = n - 1
      in if int k \<le> n \<and> n \<le> 21 then ds @ replicate (nat (n - int k)) CHR ''0''
         else if 0 < n \<and> n \<le> 21 then take (nat n) ds @ ''.'' @ drop (nat n) ds
         else if - 6 < n \<and> n \<le> 0 then ''0.'' @ replicate (nat (- n)) CHR ''0'' @ ds
         else (if k = 1 then ds else take 1 ds @ ''.'' @ drop 1 ds)
              @ ''e'' @ (if 0 \<le> e then ''+'' else ''-'') @ show_nat (nat \<bar>e\<bar>))"

fun number_toString :: "double \<Rightarrow> string" where
  "number_toString NaN = ''NaN''"
| "number_toString PosInfinity = ''Infinity''"
| "number_toString NegInfinity = ''-Infinity''"
| "number_toString (Finite x) =
     (if x = 0 then ''0''
      else if x < 0 then ''-'' @ positive_toString (- x)
      else positive_toString x)"

text \<open>A count in a template literal: a number in decimal, a string as it is.\<close>

fun show_jsval :: "jsval \<Rightarrow> string" where
  "show_jsval (JNum n) = show_nat n"
| "show_jsval (JStr s) = s"

text \<open>The two \<open>forEach\<close> loops over interests and over the evidence of a trait.\<close>

fun interests_forEach :: "string \<Rightarrow> nat \<Rightarrow> InterestEntry list \<Rightarrow> string" where
  "interests_forEach text index [] = text"
| "interests_forEach text index (interest # rest) =
     interests_forEach
       (text @ show_nat (index + 1) @ ''. r/'' @ subreddit_in interest @ '' (''
          @ show_jsval (count interest) @ '' posts/comments)\<newline>'')
       (index + 1) rest"

fun evidence_forEach :: "string \<Rightarrow> Evidence list \<Rightarrow> string" where
  "evidence_forEach text [] = text"
| "evidence_forEach text (ev # rest) =
     evidence_forEach
       (text @ ''   - ['' @ type_ev ev @ '' in r/'' @ subreddit_ev ev @ ''] ''
          @ content ev @ ''\<newline>'')
       rest"

fun traits_forEach :: "string \<Rightarrow> nat \<Rightarrow> PersonaTrait list \<Rightarrow> string" where
  "traits_forEach text index [] = text"
| "traits_forEach text index (t # rest) =
     (let text1 = text @ show_nat (index + 1) @ ''. '' @ trait t @ '' (''
                    @ show_nat (confidence t) @ ''% confidence)\<newline>'';
          text2 = text1 @ ''   Evidence:\<newline>'';
          text3 = evidence_forEach text2 (evidence t);
          text4 = text3 @ ''\<newline>''
      in traits_forEach text4 (index + 1) rest)"

definition formatPersonaAsText :: "string \<Rightarrow> PersonaResult \<Rightarrow> string" where
  "formatPersonaAsText now persona =
     (let text0 = ''REDDIT USER PERSONA ANALYSIS\<newline>'';
          text1 = text0 @ replicate 50 CHR ''='' @ ''\<newline>\<newline>'';
          text2 = text1 @ ''Username: u/'' @ username persona @ ''\<newline>'';
          text3 = text2 @ ''Generated: '' @ now @ ''\<newline>\<newline>'';
          text4 = text3 @ ''SUMMARY\<newline>'';
          text5 = text4 @ replicate 20 CHR ''-'' @ ''\<newline>'';
          text6 = text5 @ summary persona @ ''\<newline>\<newline>'';
          text7 =
            (case interests persona of
               None \<Rightarrow> text6
             | Some ins \<Rightarrow>
                 if length ins > 0
                 then interests_forEach
                        (text6 @ ''TOP INTERESTS (by activity)\<newline>''
                           @ replicate 30 CHR ''-'' @ ''\<newline>'')
                        0 ins
                      @ ''\<newline>''
                 else text6);
          text8 =
            (if length (traits persona) > 0
             then traits_forEach
                    (text7 @ ''PERSONALITY TRAITS\<newline>''
                       @ replicate 25 CHR ''-'' @ ''\<newline>'')
                    0 (traits persona)
             else text7);
          text9 = text8 @ ''ENGAGEMENT STATISTICS\<newline>'';
          text10 = text9 @ replicate 30 CHR ''-'' @ ''\<newline>'';
          text11 = text10 @ ''Total Posts: ''
                     @ show_nat (totalPosts (engagement persona)) @ ''\<newline>'';
          text12 = text11 @ ''Total Comments: ''
                     @ show_nat (totalComments (engagement persona)) @ ''\<newline>'';
          text13 = text12 @ ''Average Score: ''
                     @ number_toString (avgScore (engagement persona)) @ ''\<newline>'';
          text14 =
            (case mostActiveSubreddits (engagement persona) of
               None \<Rightarrow> text13
             | Some subs \<Rightarrow>
                 text13 @ ''Most Active Subreddits: ''
                   @ join '', '' (map (\<lambda>(sub, c). ''r/'' @ sub) subs) @ ''\<newline>'');
          text15 = text14 @ ''\<newline>'' @ replicate 50 CHR ''-'' @ ''\<newline>'';
          text16 = text15 @ ''Analysis generated by Reddit Persona Analyzer\<newline>''
      in text16)"

section \<open>Notions used to state the properties\<close>

text \<open>The combined item sequence: posts first, then comments.\<close>

definition combined :: "data \<Rightarrow> item list" where
  "combined d = posts d @ comments d"

text \<open>
  The rule catalog as a table: label, match basis with its keyword set, threshold,
  multiplier and the truncation length of an evidence snippet. The table is written
  from the specification; the theorems below compare it with what \<open>generatePersona\<close>
  computes.
\<close>

datatype match_basis = ItemText "string list" | Origin "string list" | CommentLength nat

record rule =
  label :: string
  basis :: match_basis
  threshold :: nat
  multiplier :: nat
  cut :: nat

definition helpful_rule :: rule where
  "helpful_rule =
     \<lparr>label = ''Helpful and Supportive'',
      basis = ItemText [''help'', ''advice'', ''suggestion'', ''recommend'', ''try this'',
                        ''solution''],
      threshold = 3, multiplier = 10, cut = 100\<rparr>"

definition tech_rule :: rule where
  "tech_rule =
     \<lparr>label = ''Technology Enthusiast'',
      basis = ItemText [''code'', ''programming'', ''software'', ''tech'', ''development'',
                        ''algorithm''],
      threshold = 2, multiplier = 15, cut = 100\<rparr>"

definition creative_rule :: rule where
  "creative_rule =
     \<lparr>label = ''Creative and Artistic'',
      basis = Origin [''art'', ''music'', ''writing'', ''photography'', ''design'',
                      ''creative''],
      threshold = 1, multiplier = 20, cut = 100\<rparr>"

definition thoughtful_rule :: rule where
  "thoughtful_rule =
     \<lparr>label = ''Thoughtful Communicator'',
      basis = CommentLength 200,
      threshold = 5, multiplier = 8, cut = 150\<rparr>"

definition catalog :: "rule list" where
  "catalog = [helpful_rule, tech_rule, creative_rule, thoughtful_rule]"

text \<open>Whether an item qualifies for a match basis, and the items a basis ranges over.\<close>

fun qualifies :: "match_basis \<Rightarrow> item \<Rightarrow> bool" where
  "qualifies (ItemText kws) it = some_keyword kws (item_text it)"
| "qualifies (Origin subs) it =
     (case subreddit it of None \<Rightarrow> False | Some s \<Rightarrow> some_keyword subs s)"
| "qualifies (CommentLength n) it = (n < length (body_text it))"

fun candidates :: "match_basis \<Rightarrow> data \<Rightarrow> item list" where
  "candidates (CommentLength n) d = comments d"
| "candidates b d = combined d"

definition qualifying :: "rule \<Rightarrow> data \<Rightarrow> item list" where
  "qualifying r d = filter (qualifies (basis r)) (candidates (basis r) d)"

text \<open>The text an evidence snippet is cut from, and the kind tag of the evidence.\<close>

fun evidence_text :: "match_basis \<Rightarrow> item \<Rightarrow> string" where
  "evidence_text (CommentLength n) it = body_text it"
| "evidence_text b it = item_text it"

fun evidence_kind :: "match_basis \<Rightarrow> item \<Rightarrow> string" where
  "evidence_kind (CommentLength n) it = ''comment''"
| "evidence_kind b it = (if or_else (title it) [] = [] then ''comment'' else ''post'')"

definition rule_evidence :: "rule \<Rightarrow> item \<Rightarrow> Evidence" where
  "rule_evidence r it =
     \<lparr>type_ev = evidence_kind (basis r) it,
      content = take (cut r) (evidence_text (basis r) it) @ ''...'',
      subreddit_ev = subreddit_key it\<rparr>"

text \<open>What one rule contributes to the trait list: nothing, or one detection.\<close>

definition detect :: "rule \<Rightarrow> data \<Rightarrow> PersonaTrait list" where
  "detect r d =
     (if threshold r < length (qualifying r d)
      then [\<lparr>trait = label r,
             evidence = map (rule_evidence r) (take 2 (qualifying r d)),
             confidence = min (length (qualifying r d) * multiplier r) 100\<rparr>]
      else [])"

text \<open>The origins of the items that have one, in item order.\<close>

definition origins :: "data \<Rightarrow> string list" where
  "origins d = List.map_filter subreddit (combined d)"

definition origin_count :: "data \<Rightarrow> string \<Rightarrow> nat" where
  "origin_count d s = length (filter (\<lambda>it. subreddit it = Some s) (combined d))"

text \<open>
  \<open>first_before xs a b\<close>: the first occurrence of \<open>a\<close> in \<open>xs\<close> comes before every
  occurrence of \<open>b\<close>.
\<close>

fun first_before :: "'a list \<Rightarrow> 'a \<Rightarrow> 'a \<Rightarrow> bool" where
  "first_before [] a b = False"
| "first_before (x # xs) a b =
     (if x = a then True else if x = b then False else first_before xs a b)"

text \<open>
  The order in which \<open>Object.entries\<close> lists two origins of the counting object: array
  indices first, by ascending value; then the other keys, by first appearance.
\<close>

definition entry_before :: "data \<Rightarrow> string \<Rightarrow> string \<Rightarrow> bool" where
  "entry_before d a b =
     (if is_array_index a
      then (if is_array_index b then index_value a \<le> index_value b else True)
      else (if is_array_index b then False else first_before (origins d) a b))"

text \<open>The first occurrences of a list, in order.\<close>

fun first_seen :: "'a list \<Rightarrow> 'a list" where
  "first_seen [] = []"
| "first_seen (x # xs) = x # removeAll x (first_seen xs)"

text \<open>
  What the language standard requires of \<open>Array.prototype.sort\<close>. A comparator is
  consistent on a set of values when it never returns NaN there and its three outcomes
  (negative, zero, positive) order the set: zero is reflexive, symmetric and transitive,
  negative and positive are transitive.
\<close>

definition consistent :: "('a \<Rightarrow> 'a \<Rightarrow> double) \<Rightarrow> 'a set \<Rightarrow> bool" where
  "consistent cmp S \<longleftrightarrow>
     (\<forall>a\<in>S. \<forall>b\<in>S. cmp a b \<noteq> NaN)
     \<and> (\<forall>a\<in>S. cmp a a = Finite 0)
     \<and> (\<forall>a\<in>S. \<forall>b\<in>S. cmp a b = Finite 0 \<longrightarrow> cmp b a = Finite 0)
     \<and> (\<forall>a\<in>S. \<forall>b\<in>S. \<forall>c\<in>S.
           cmp a b = Finite 0 \<and> cmp b c = Finite 0 \<longrightarrow> cmp a c = Finite 0)
     \<and> (\<forall>a\<in>S. \<forall>b\<in>S. \<forall>c\<in>S.
           negative (cmp a b) \<and> negative (cmp b c) \<longrightarrow> negative (cmp a c))
     \<and> (\<forall>a\<in>S. \<forall>b\<in>S. \<forall>c\<in>S.
           positive (cmp a b) \<and> positive (cmp b c) \<longrightarrow> positive (cmp a c))"

text \<open>
  The stable sort by a comparator, by insertion: an element goes in front of the first
  element that it is not greater than, so elements that compare equal keep their order.
  NaN counts as zero, as the standard has it.
\<close>

fun insert_sorted :: "('a \<Rightarrow> 'a \<Rightarrow> double) \<Rightarrow> 'a \<Rightarrow> 'a list \<Rightarrow> 'a list" where
  "insert_sorted cmp x [] = [x]"
| "insert_sorted cmp x (y # ys) =
     (if positive (cmp x y) then y # insert_sorted cmp x ys else x # y # ys)"

definition stable_sort :: "('a \<Rightarrow> 'a \<Rightarrow> double) \<Rightarrow> 'a list \<Rightarrow> 'a list" where
  "stable_sort cmp xs = foldr (insert_sorted cmp) xs []"

text \<open>
  A conforming sort returns a permutation of the array; when the comparator is
  consistent on the elements, it returns the stable sort. With a comparator that is not
  consistent the standard leaves the order to the engine.
\<close>

definition conforms :: "sorter \<Rightarrow> bool" where
  "conforms array_sort \<longleftrightarrow>
     (\<forall>cmp xs.
        (\<forall>x. count_list (array_sort cmp xs) x = count_list xs x)
        \<and> (consistent cmp (set xs) \<longrightarrow> array_sort cmp xs = stable_sort cmp xs))"

text \<open>
  The ranking of the origins: the entries of the counting object, sorted by the engine.
  The interests list and the top-origins list are both cut from it.
\<close>

definition ranking :: "sorter \<Rightarrow> data \<Rightarrow> (string \<times> jsval) list" where
  "ranking array_sort d =
     array_sort compare_counts (object_entries (count_subreddits (combined d)))"

text \<open>The number that a count holds.\<close>

fun num_of :: "jsval \<Rightarrow> nat" where
  "num_of (JNum n) = n"
| "num_of (JStr s) = 0"

text \<open>
  The sum of the scores as the program computes it, in doubles from left to right, and
  the mean of the scores as an exact fraction.
\<close>

definition total_score :: "data \<Rightarrow> double" where
  "total_score d = foldl (\<lambda>sum it. dadd sum (score_or_zero it)) (Finite 0) (combined d)"

definition mean_score :: "data \<Rightarrow> rat" where
  "mean_score d =
     of_int (sum_list (map (\<lambda>it. case score it of None \<Rightarrow> 0 | Some n \<Rightarrow> n) (combined d)))
       / of_nat (length (combined d))"

text \<open>
  The sum of the magnitudes of the scores. While it stays below \<open>2^53\<close> every partial
  sum of the scores is a double, and the program's sum is the exact one.
\<close>

definition score_magnitudes :: "data \<Rightarrow> int" where
  "score_magnitudes d =
     sum_list (map (\<lambda>it. case score it of None \<Rightarrow> 0 | Some n \<Rightarrow> \<bar>n\<bar>) (combined d))"

text \<open>
  The share of the double arithmetic in the distance between \<open>avgScore * 100\<close> and
  the mean score times 100: the quotient and the product are each rounded to 53 bits.
\<close>

definition rounding_slack :: "rat \<Rightarrow> rat" where
  "rounding_slack m = \<bar>m\<bar> / 2 ^ 44 + 1 / 2 ^ 1000"

text \<open>The lines of the report's numbered lists, without the accumulator.\<close>

fun interest_lines :: "nat \<Rightarrow> InterestEntry list \<Rightarrow> string" where
  "interest_lines n [] = []"
| "interest_lines n (e # es) =
     show_nat n @ ''. r/'' @ subreddit_in e @ '' ('' @ show_jsval (count e)
       @ '' posts/comments)\<newline>'' @ interest_lines (n + 1) es"

fun evidence_lines :: "Evidence list \<Rightarrow> string" where
  "evidence_lines [] = []"
| "evidence_lines (e # es) =
     ''   - ['' @ type_ev e @ '' in r/'' @ subreddit_ev e @ ''] '' @ content e
       @ ''\<newline>'' @ evidence_lines es"

fun trait_blocks :: "nat \<Rightarrow> PersonaTrait list \<Rightarrow> string" where
  "trait_blocks n [] = []"
| "trait_blocks n (t # ts) =
     show_nat n @ ''. '' @ trait t @ '' ('' @ show_nat (confidence t)
       @ ''% confidence)\<newline>'' @ ''   Evidence:\<newline>'' @ evidence_lines (evidence t)
       @ ''\<newline>'' @ trait_blocks (n + 1) ts"

text \<open>The sections of the report, each with its header.\<close>

definition title_section :: "string \<Rightarrow> PersonaResult \<Rightarrow> string" where
  "title_section now p =
     ''REDDIT USER PERSONA ANALYSIS\<newline>'' @ replicate 50 CHR ''='' @ ''\<newline>\<newline>''
     @ ''Username: u/'' @ username p @ ''\<newline>''
     @ ''Generated: '' @ now @ ''\<newline>\<newline>''"

definition summary_section :: "PersonaResult \<Rightarrow> string" where
  "summary_section p =
     ''SUMMARY\<newline>'' @ replicate 20 CHR ''-'' @ ''\<newline>'' @ summary p @ ''\<newline>\<newline>''"

definition interests_section :: "InterestEntry list \<Rightarrow> string" where
  "interests_section ins =
     ''TOP INTERESTS (by activity)\<newline>'' @ replicate 30 CHR ''-'' @ ''\<newline>''
     @ interest_lines 1 ins @ ''\<newline>''"

definition traits_section :: "PersonaTrait list \<Rightarrow> string" where
  "traits_section ts =
     ''PERSONALITY TRAITS\<newline>'' @ replicate 25 CHR ''-'' @ ''\<newline>'' @ trait_blocks 1 ts"

definition totals_section :: "Engagement \<Rightarrow> string" where
  "totals_section e =
     ''ENGAGEMENT STATISTICS\<newline>'' @ replicate 30 CHR ''-'' @ ''\<newline>''
     @ ''Total Posts: '' @ show_nat (totalPosts e) @ ''\<newline>''
     @ ''Total Comments: '' @ show_nat (totalComments e) @ ''\<newline>''
     @ ''Average Score: '' @ number_toString (avgScore e) @ ''\<newline>''"

definition active_line :: "(string \<times> jsval) list \<Rightarrow> string" where
  "active_line subs =
     ''Most Active Subreddits: '' @ join '', '' (map (\<lambda>(sub, c). ''r/'' @ sub) subs)
     @ ''\<newline>''"

definition footer_section :: string where
  "footer_section =
     ''\<newline>'' @ replicate 50 CHR ''-'' @ ''\<newline>''
     @ ''Analysis generated by Reddit Persona Analyzer\<newline>''"

text \<open>Example inputs: a post with a title and a score, in a given subreddit.\<close>

definition post_in :: "string \<Rightarrow> string \<Rightarrow> int \<Rightarrow> item" where
  "post_in sub t n = \<lparr>title = Some t, body = None, subreddit = Some sub, score = Some n\<rparr>"

definition two_origins :: data where
  "two_origins = \<lparr>posts = [post_in ''pics'' ''a cat'' 0, post_in ''196'' ''rule'' 0], comments = []\<rparr>"

definition four_help_posts :: data where
  "four_help_posts =
     \<lparr>posts = [post_in ''Art'' ''help'' 3, post_in ''Art'' ''help'' 3,
               post_in ''Art'' ''help'' 3, post_in ''Art'' ''help'' 3],
      comments = []\<rparr>"

definition one_zero_post :: data where
  "one_zero_post = \<lparr>posts = [post_in ''pics'' ''a cat'' 0], comments = []\<rparr>"

definition proto_post :: data where
  "proto_post = \<lparr>posts = [post_in ''__proto__'' ''a cat'' 1], comments = []\<rparr>"

definition constructor_post :: data where
  "constructor_post = \<lparr>posts = [post_in ''constructor'' ''a cat'' 1], comments = []\<rparr>"

text \<open>40 posts, 23 of them of score 1 and 17 of score 0: the mean score is 0.575.\<close>

definition forty_posts :: data where
  "forty_posts =
     \<lparr>posts = replicate 23 (post_in ''pics'' ''a cat'' 1)
               @ replicate 17 (post_in ''pics'' ''a cat'' 0),
      comments = []\<rparr>"

text \<open>The results of \<open>generatePersona\<close> on the example inputs, and the degenerate result.\<close>

definition two_origins_persona :: PersonaResult where
  "two_origins_persona =
     \<lparr>username = ''u'',
      summary =
        ''Active Reddit user with 2 posts and 0 comments. Primary interests include 196, pics.'',
      interests =
        Some [\<lparr>subreddit_in = ''196'', count = JNum 1\<rparr>,
              \<lparr>subreddit_in = ''pics'', count = JNum 1\<rparr>],
      traits = [],
      engagement =
        \<lparr>totalPosts = 2, totalComments = 0, avgScore = Finite 0,
         mostActiveSubreddits = Some [(''196'', JNum 1), (''pics'', JNum 1)]\<rparr>\<rparr>"

definition four_help_posts_persona :: PersonaResult where
  "four_help_posts_persona =
     \<lparr>username = ''u'',
      summary =
        ''Active Reddit user with 4 posts and 0 comments. Primary interests include Art.'',
      interests = Some [\<lparr>subreddit_in = ''Art'', count = JNum 4\<rparr>],
      traits =
        [\<lparr>trait = ''Helpful and Supportive'',
          evidence =
            [\<lparr>type_ev = ''post'', content = ''help...'', subreddit_ev = ''Art''\<rparr>,
             \<lparr>type_ev = ''post'', content = ''help...'', subreddit_ev = ''Art''\<rparr>],
          confidence = 40\<rparr>,
         \<lparr>trait = ''Creative and Artistic'',
          evidence =
            [\<lparr>type_ev = ''post'', content = ''help...'', subreddit_ev = ''Art''\<rparr>,
             \<lparr>type_ev = ''post'', content = ''help...'', subreddit_ev = ''Art''\<rparr>],
          confidence = 80\<rparr>],
      engagement =
        \<lparr>totalPosts = 4, totalComments = 0, avgScore = Finite 3,
         mostActiveSubreddits = Some [(''Art'', JNum 4)]\<rparr>\<rparr>"

definition one_zero_post_persona :: PersonaResult where
  "one_zero_post_persona =
     \<lparr>username = ''u'',
      summary =
        ''Active Reddit user with 1 posts and 0 comments. Primary interests include pics.'',
      interests = Some [\<lparr>subreddit_in = ''pics'', count = JNum 1\<rparr>],
      traits = [],
      engagement =
        \<lparr>totalPosts = 1, totalComments = 0, avgScore = Finite 0,
         mostActiveSubreddits = Some [(''pics'', JNum 1)]\<rparr>\<rparr>"

definition constructor_post_persona :: PersonaResult where
  "constructor_post_persona =
     \<lparr>username = ''u'',
      summary =
        ''Active Reddit user with 1 posts and 0 comments. Primary interests include constructor.'',
      interests =
        Some [\<lparr>subreddit_in = ''constructor'',
               count = JStr ''function Object() { [native code] }1''\<rparr>],
      traits = [],
      engagement =
        \<lparr>totalPosts = 1, totalComments = 0, avgScore = Finite 1,
         mostActiveSubreddits =
           Some [(''constructor'', JStr ''function Object() { [native code] }1'')]\<rparr>\<rparr>"

definition proto_post_persona :: PersonaResult where
  "proto_post_persona =
     \<lparr>username = ''u'',
      summary = ''Active Reddit user with 1 posts and 0 comments. Primary interests include .'',
      interests = Some [],
      traits = [],
      engagement =
        \<lparr>totalPosts = 1, totalComments = 0, avgScore = Finite 1,
         mostActiveSubreddits = Some []\<rparr>\<rparr>"

definition empty_persona :: PersonaResult where
  "empty_persona =
     \<lparr>username = ''u'',
      summary = ''No public posts or comments found for analysis.'',
      interests = None,
      traits = [],
      engagement = \<lparr>totalPosts = 0, totalComments = 0, avgScore = Finite 0,
                    mostActiveSubreddits = None\<rparr>\<rparr>"

section \<open>Properties\<close>

subsection \<open>Strings\<close>

text \<open>\<open>includes_str\<close> is the substring test: some split of \<open>s\<close> has \<open>k\<close> in the middle.\<close>

lemma startsWith_iff: "startsWith s k \<longleftrightarrow> (\<exists>q. s = k @ q)"
  unfolding startsWith_def
  by (metis append_eq_conv_conj append_take_drop_id)

lemma includes_str_iff: "includes_str s k \<longleftrightarrow> (\<exists>p q. s = p @ k @ q)"
proof (induction s)
  case Nil
  then show ?case by auto
next
  case (Cons c cs)
  show ?case
  proof
    assume "includes_str (c # cs) k"
    then consider "startsWith (c # cs) k" | "includes_str cs k" by auto
    then show "\<exists>p q. c # cs = p @ k @ q"
    proof cases
      case 1
      then obtain q where "c # cs = [] @ k @ q" by (auto simp: startsWith_iff)
      then show ?thesis by blast
    next
      case 2
      then obtain p q where "cs = p @ k @ q" using Cons.IH by blast
      then have "c # cs = (c # p) @ k @ q" by simp
      then show ?thesis by blast
    qed
  next
    assume "\<exists>p q. c # cs = p @ k @ q"
    then obtain p q where pq: "c # cs = p @ k @ q" by blast
    show "includes_str (c # cs) k"
    proof (cases p)
      case Nil
      with pq have "\<exists>q. c # cs = k @ q" by auto
      then have "startsWith (c # cs) k" by (simp only: startsWith_iff)
      then show ?thesis by simp
    next
      case (Cons a p')
      with pq have "cs = p' @ k @ q" by simp
      then show ?thesis using Cons.IH by auto
    qed
  qed
qed

lemma length_toLowerCase: "length (toLowerCase s) = length s"
  by (simp add: toLowerCase_def)

lemma length_snippet: "length (snippet n s) \<le> n + 3"
  by (simp add: snippet_def)

subsection \<open>The trait list\<close>

lemma creative_filter_Inr:
  "creative_filter xs = Inr ys \<Longrightarrow>
     ys = filter (qualifies (Origin creativeSubreddits)) xs
     \<and> (\<forall>it\<in>set xs. subreddit it \<noteq> None)"
proof (induction xs arbitrary: ys)
  case Nil
  then show ?case by simp
next
  case (Cons it its)
  then show ?case
    by (auto split: option.splits sum.splits if_splits)
qed

lemma creative_filter_Inl:
  "creative_filter xs = Inl e \<Longrightarrow> e = TypeError \<and> (\<exists>it\<in>set xs. subreddit it = None)"
proof (induction xs)
  case Nil
  then show ?case by simp
next
  case (Cons it its)
  then show ?case
    by (auto split: option.splits sum.splits if_splits)
qed

lemma item_evidence_rule:
  "rule_evidence helpful_rule = item_evidence"
  "rule_evidence tech_rule = item_evidence"
  "rule_evidence creative_rule = item_evidence"
  by (auto simp: fun_eq_iff item_evidence_def rule_evidence_def helpful_rule_def tech_rule_def
      creative_rule_def snippet_def)

lemma comment_evidence_rule: "rule_evidence thoughtful_rule = comment_evidence"
  by (auto simp: fun_eq_iff comment_evidence_def rule_evidence_def thoughtful_rule_def
      snippet_def)

lemma qualifies_fun:
  "qualifies (ItemText kws) = (\<lambda>it. some_keyword kws (item_text it))"
  "qualifies (CommentLength n) = (\<lambda>c. n < length (body_text c))"
  by (simp_all add: fun_eq_iff)

lemma qualifying_simps:
  "qualifying helpful_rule d =
     filter (\<lambda>it. some_keyword helpfulKeywords (item_text it)) (combined d)"
  "qualifying tech_rule d =
     filter (\<lambda>it. some_keyword techKeywords (item_text it)) (combined d)"
  "qualifying creative_rule d = filter (qualifies (Origin creativeSubreddits)) (combined d)"
  "qualifying thoughtful_rule d = filter (\<lambda>c. 200 < length (body_text c)) (comments d)"
  by (simp_all add: qualifying_def helpful_rule_def tech_rule_def creative_rule_def
      thoughtful_rule_def helpfulKeywords_def techKeywords_def creativeSubreddits_def
      qualifies_fun)

lemma rule_fields:
  "label helpful_rule = ''Helpful and Supportive''"
  "label tech_rule = ''Technology Enthusiast''"
  "label creative_rule = ''Creative and Artistic''"
  "label thoughtful_rule = ''Thoughtful Communicator''"
  "threshold helpful_rule = 3" "threshold tech_rule = 2" "threshold creative_rule = 1"
  "threshold thoughtful_rule = 5"
  "multiplier helpful_rule = 10" "multiplier tech_rule = 15" "multiplier creative_rule = 20"
  "multiplier thoughtful_rule = 8"
  "cut helpful_rule = 100" "cut tech_rule = 100" "cut creative_rule = 100"
  "cut thoughtful_rule = 150"
  by (simp_all add: helpful_rule_def tech_rule_def creative_rule_def thoughtful_rule_def)

lemma detect_empty:
  assumes "combined d = []"
  shows "detect helpful_rule d = []" "detect tech_rule d = []" "detect creative_rule d = []"
    "detect thoughtful_rule d = []"
  using assms by (simp_all add: detect_def qualifying_simps combined_def)

text \<open>
  The result on a non-empty input, when the function returns one: every field in terms
  of the ranking, the rule table and the double sum of the scores.
\<close>

lemma generatePersona_nonempty:
  assumes ne: "combined d \<noteq> []" and ret: "generatePersona array_sort name d = Inr r"
  shows "r = \<lparr>username = name,
              summary =
                ''Active Reddit user with '' @ show_nat (length (posts d))
                @ '' posts and '' @ show_nat (length (comments d))
                @ '' comments. Primary interests include ''
                @ join '', '' (map fst (take 3 (ranking array_sort d))) @ ''.'',
              interests =
                Some (map (\<lambda>(s, c). \<lparr>subreddit_in = s, count = c\<rparr>)
                        (take 5 (ranking array_sort d))),
              traits = detect helpful_rule d @ detect tech_rule d @ detect creative_rule d
                         @ detect thoughtful_rule d,
              engagement =
                \<lparr>totalPosts = length (posts d),
                 totalComments = length (comments d),
                 avgScore =
                   ddiv (Math_round
                           (dmul (ddiv (total_score d) (length (combined d))) (Finite 100)))
                     100,
                 mostActiveSubreddits = Some (take 3 (ranking array_sort d))\<rparr>\<rparr>"
    and "\<forall>it\<in>set (combined d). subreddit it \<noteq> None"
proof -
  from ret ne obtain cc where cc: "creative_filter (combined d) = Inr cc"
    unfolding generatePersona_def Let_def combined_def[symmetric]
    by (auto split: sum.splits)
  from creative_filter_Inr[OF cc]
  have cc_eq: "cc = qualifying creative_rule d"
    and some: "\<forall>it\<in>set (combined d). subreddit it \<noteq> None"
    by (simp_all add: qualifying_simps)
  show "\<forall>it\<in>set (combined d). subreddit it \<noteq> None" by (rule some)
  have tr: "detect helpful_rule d @ detect tech_rule d @ detect creative_rule d
              @ detect thoughtful_rule d =
     (let traits0 = [];
          helpfulContent =
            filter (\<lambda>it. some_keyword helpfulKeywords (item_text it)) (combined d);
          traits1 =
            (if length helpfulContent > 3
             then traits0 @
               [\<lparr>trait = ''Helpful and Supportive'',
                 evidence = map item_evidence (take 2 helpfulContent),
                 confidence = min (length helpfulContent * 10) 100\<rparr>]
             else traits0);
          techContent =
            filter (\<lambda>it. some_keyword techKeywords (item_text it)) (combined d);
          traits2 =
            (if length techContent > 2
             then traits1 @
               [\<lparr>trait = ''Technology Enthusiast'',
                 evidence = map item_evidence (take 2 techContent),
                 confidence = min (length techContent * 15) 100\<rparr>]
             else traits1);
          traits3 =
            (if length cc > 1
             then traits2 @
               [\<lparr>trait = ''Creative and Artistic'',
                 evidence = map item_evidence (take 2 cc),
                 confidence = min (length cc * 20) 100\<rparr>]
             else traits2);
          longComments = filter (\<lambda>c. length (body_text c) > 200) (comments d);
          traits4 =
            (if length longComments > 5
             then traits3 @
               [\<lparr>trait = ''Thoughtful Communicator'',
                 evidence = map comment_evidence (take 2 longComments),
                 confidence = min (length longComments * 8) 100\<rparr>]
             else traits3)
      in traits4)"
    by (simp add: Let_def detect_def cc_eq rule_fields qualifying_simps(1,2,4)
        item_evidence_rule comment_evidence_rule)
  show "r = \<lparr>username = name,
              summary =
                ''Active Reddit user with '' @ show_nat (length (posts d))
                @ '' posts and '' @ show_nat (length (comments d))
                @ '' comments. Primary interests include ''
                @ join '', '' (map fst (take 3 (ranking array_sort d))) @ ''.'',
              interests =
                Some (map (\<lambda>(s, c). \<lparr>subreddit_in = s, count = c\<rparr>)
                        (take 5 (ranking array_sort d))),
              traits = detect helpful_rule d @ detect tech_rule d @ detect creative_rule d
                         @ detect thoughtful_rule d,
              engagement =
                \<lparr>totalPosts = length (posts d),
                 totalComments = length (comments d),
                 avgScore =
                   ddiv (Math_round
                           (dmul (ddiv (total_score d) (length (combined d))) (Finite 100)))
                     100,
                 mostActiveSubreddits = Some (take 3 (ranking array_sort d))\<rparr>\<rparr>"
    using ret ne
    unfolding tr ranking_def total_score_def
    unfolding generatePersona_def Let_def combined_def[symmetric] cc
    by simp
qed

lemma generatePersona_degenerate:
  assumes "combined d = []" and "generatePersona array_sort name d = Inr r"
  shows "r = \<lparr>username = name,
              summary = ''No public posts or comments found for analysis.'',
              interests = None,
              traits = [],
              engagement = \<lparr>totalPosts = 0, totalComments = 0, avgScore = Finite 0,
                            mostActiveSubreddits = None\<rparr>\<rparr>"
  using assms by (auto simp: generatePersona_def combined_def)

lemma generatePersona_traits:
  assumes "generatePersona array_sort name d = Inr r"
  shows "traits r = detect helpful_rule d @ detect tech_rule d @ detect creative_rule d
           @ detect thoughtful_rule d"
proof (cases "combined d = []")
  case True
  from generatePersona_degenerate[OF True assms] have "traits r = []" by simp
  with detect_empty[OF True] show ?thesis by simp
next
  case False
  show ?thesis
    by (subst generatePersona_nonempty(1)[OF False assms]) simp
qed

text \<open>
  When the function throws and when it returns: it throws exactly when an item has no
  subreddit, whatever the titles, bodies and scores are, and whatever the engine's sort
  does.
\<close>

lemma generatePersona_TypeError_iff:
  "generatePersona array_sort name d = Inl TypeError
     \<longleftrightarrow> (\<exists>it\<in>set (combined d). subreddit it = None)"
proof (cases "creative_filter (combined d)")
  case (Inl e)
  from creative_filter_Inl[OF Inl]
  have e: "e = TypeError" and ex: "\<exists>it\<in>set (combined d). subreddit it = None" by simp_all
  from ex have "combined d \<noteq> []" by auto
  then have "generatePersona array_sort name d = Inl TypeError"
    unfolding generatePersona_def Let_def combined_def[symmetric] Inl e by simp
  with ex show ?thesis by simp
next
  case (Inr cc)
  from creative_filter_Inr[OF Inr] have all: "\<forall>it\<in>set (combined d). subreddit it \<noteq> None"
    by simp
  have "generatePersona array_sort name d \<noteq> Inl TypeError"
    unfolding generatePersona_def Let_def combined_def[symmetric] Inr by simp
  with all show ?thesis by auto
qed

lemma generatePersona_returns:
  assumes "\<forall>it\<in>set (combined d). subreddit it \<noteq> None"
  shows "\<exists>r. generatePersona array_sort name d = Inr r"
proof (cases "creative_filter (combined d)")
  case (Inl e)
  with creative_filter_Inl[OF Inl] assms show ?thesis by auto
next
  case (Inr cc)
  show ?thesis
    unfolding generatePersona_def Let_def combined_def[symmetric] Inr by simp
qed

subsection \<open>Evaluation on the example inputs\<close>

lemma floor_rat_numeral:
  "\<lfloor>numeral a / numeral b :: rat\<rfloor> = numeral a div numeral b"
  by (metis floor_divide_of_int_eq of_int_numeral)

lemma ceiling_rat_numeral:
  "\<lceil>numeral a / numeral b :: rat\<rceil> = - (- numeral a div numeral b)"
  using ceiling_divide_eq_div[of "numeral a" "numeral b"] by simp

lemma floor_rat_one_div: "\<lfloor>1 / numeral b :: rat\<rfloor> = 1 div numeral b"
  by (metis floor_divide_of_int_eq of_int_numeral of_int_1)

lemma floor_rat_neg_numeral:
  "\<lfloor>- (numeral a / numeral b) :: rat\<rfloor> = - numeral a div numeral b"
  by (metis divide_minus_left floor_divide_of_int_eq of_int_neg_numeral of_int_numeral)

lemma ceiling_rat_one_div: "\<lceil>1 / numeral b :: rat\<rceil> = - (- 1 div numeral b)"
  using ceiling_divide_eq_div[of 1 "numeral b"] by simp

lemma replicate_numeral_unfold: "replicate (numeral k) x = x # replicate (pred_numeral k) x"
  by (simp add: numeral_eq_Suc)

lemmas double_defs = fl_def ilog2_def bit_length.simps pow2_def round_half_even_def Let_def
  floor_rat_numeral ceiling_rat_numeral floor_rat_one_div floor_rat_neg_numeral
  ceiling_rat_one_div

lemma fl_zero: "fl 0 = Finite 0"
  by (simp add: fl_def)

lemmas eval_defs = generatePersona_def Let_def post_in_def item_text_def body_text_def
  or_else_def score_or_zero_def some_keyword_def toLowerCase_def lower_char_def startsWith_def
  snippet_def helpfulKeywords_def techKeywords_def creativeSubreddits_def item_evidence_def
  comment_evidence_def subreddit_key_def count_subreddits_def object_entries_def
  stable_sort_def compare_counts_def first_value_def function_names_def function_text_def
  is_array_index_def is_digit_def index_value_def
  show_nat.simps digit_def char_of_def bit_Suc_0_iff double_defs

lemma two_origins_result:
  "generatePersona stable_sort ''u'' two_origins = Inr two_origins_persona"
  by (simp add: two_origins_def two_origins_persona_def eval_defs)

lemma four_help_posts_result:
  "generatePersona stable_sort ''u'' four_help_posts = Inr four_help_posts_persona"
  by (simp add: four_help_posts_def four_help_posts_persona_def eval_defs)

lemma one_zero_post_result:
  "generatePersona stable_sort ''u'' one_zero_post = Inr one_zero_post_persona"
  by (simp add: one_zero_post_def one_zero_post_persona_def eval_defs)

lemma constructor_post_result:
  "generatePersona stable_sort ''u'' constructor_post = Inr constructor_post_persona"
  by (simp add: constructor_post_def constructor_post_persona_def eval_defs)

lemma proto_post_result:
  "generatePersona stable_sort ''u'' proto_post = Inr proto_post_persona"
  by (simp add: proto_post_def proto_post_persona_def eval_defs)

subsection \<open>The empty input\<close>

text \<open>
  C2. For the input \<open>{posts: [], comments: []}\<close> the function returns at once: the
  summary is the fixed sentence, the trait list is empty and the engagement record is
  \<open>{totalPosts: 0, totalComments: 0, avgScore: 0}\<close>. The returned object has no
  \<open>interests\<close> key at all (\<open>None\<close>): it is not the empty list.
\<close>

theorem generatePersona_empty:
  "generatePersona array_sort name \<lparr>posts = [], comments = []\<rparr> =
     Inr \<lparr>username = name,
          summary = ''No public posts or comments found for analysis.'',
          interests = None,
          traits = [],
          engagement = \<lparr>totalPosts = 0, totalComments = 0, avgScore = Finite 0,
                        mostActiveSubreddits = None\<rparr>\<rparr>"
  by (simp add: generatePersona_def)

subsection \<open>Missing fields\<close>

text \<open>
  C3. A post without a subreddit makes the function throw: the callback of the creative
  filter calls \<open>toLowerCase\<close> on the missing field. Missing titles, bodies and scores
  are replaced by defaults; the missing subreddit is not.
\<close>

theorem generatePersona_missing_subreddit_throws:
  "generatePersona array_sort ''u''
     \<lparr>posts = [\<lparr>title = Some ''hello'', body = None, subreddit = None, score = Some 1\<rparr>],
      comments = []\<rparr> = Inl TypeError"
  by (simp add: generatePersona_def Let_def)

subsection \<open>Trait detection\<close>

lemma trait_of_rule:
  assumes "generatePersona array_sort name d = Inr r" and "rl \<in> set catalog"
    and "t \<in> set (traits r)" and "trait t = label rl"
  shows "t \<in> set (detect rl d)"
  using assms(2-4) unfolding catalog_def generatePersona_traits[OF assms(1)]
  by (auto simp: detect_def rule_fields split: if_splits)

lemma trait_has_rule:
  assumes "generatePersona array_sort name d = Inr r" and "t \<in> set (traits r)"
  shows "\<exists>rl\<in>set catalog. t \<in> set (detect rl d)"
  using assms(2) unfolding catalog_def generatePersona_traits[OF assms(1)]
  by auto




lemma four_help_posts_helpful:
  "qualifying helpful_rule four_help_posts =
     [post_in ''Art'' ''help'' 3, post_in ''Art'' ''help'' 3, post_in ''Art'' ''help'' 3,
      post_in ''Art'' ''help'' 3]"
  by (simp add: qualifying_def helpful_rule_def four_help_posts_def combined_def post_in_def
      some_keyword_def toLowerCase_def lower_char_def char_of_def bit_Suc_0_iff startsWith_def
      item_text_def or_else_def)



text \<open>
  C10. Every detected trait has a confidence of at least \<open>(threshold + 1) * multiplier\<close>
  of its rule: at least 40 for Helpful and Supportive, 45 for Technology Enthusiast, 40
  for Creative and Artistic and 48 for Thoughtful Communicator; it is never 0.
\<close>

theorem confidence_lower_bound:
  assumes "generatePersona array_sort name d = Inr r" and "t \<in> set (traits r)"
  shows "(\<exists>rl\<in>set catalog. trait t = label rl
            \<and> (threshold rl + 1) * multiplier rl \<le> confidence t)
         \<and> (trait t = ''Helpful and Supportive'' \<longrightarrow> 40 \<le> confidence t)
         \<and> (trait t = ''Technology Enthusiast'' \<longrightarrow> 45 \<le> confidence t)
         \<and> (trait t = ''Creative and Artistic'' \<longrightarrow> 40 \<le> confidence t)
         \<and> (trait t = ''Thoughtful Communicator'' \<longrightarrow> 48 \<le> confidence t)
         \<and> 0 < confidence t"
proof -
  from trait_has_rule[OF assms] obtain rl where rl: "rl \<in> set catalog" "t \<in> set (detect rl d)"
    by blast
  from rl(2) have t: "trait t = label rl" "threshold rl < length (qualifying rl d)"
    "confidence t = min (length (qualifying rl d) * multiplier rl) 100"
    by (auto simp: detect_def split: if_splits)
  from t(2) have "(threshold rl + 1) * multiplier rl \<le> length (qualifying rl d) * multiplier rl"
    by (intro mult_le_mono1) simp
  moreover from rl(1) have "(threshold rl + 1) * multiplier rl \<le> 100"
    by (auto simp: catalog_def rule_fields)
  ultimately have bound: "(threshold rl + 1) * multiplier rl \<le> confidence t"
    by (simp add: t(3))
  from rl(1) t(1) bound show ?thesis
    by (auto simp: catalog_def rule_fields)
qed

theorem confidence_lower_bound_witness:
  "generatePersona stable_sort ''u'' four_help_posts = Inr four_help_posts_persona
   \<and> hd (traits four_help_posts_persona) \<in> set (traits four_help_posts_persona)
   \<and> trait (hd (traits four_help_posts_persona)) = ''Helpful and Supportive''
   \<and> 40 \<le> confidence (hd (traits four_help_posts_persona))
   \<and> 0 < confidence (hd (traits four_help_posts_persona))"
proof -
  have mem: "hd (traits four_help_posts_persona) \<in> set (traits four_help_posts_persona)"
    by (simp add: four_help_posts_persona_def)
  have lab: "trait (hd (traits four_help_posts_persona)) = ''Helpful and Supportive''"
    by (simp add: four_help_posts_persona_def)
  from confidence_lower_bound[OF four_help_posts_result mem] four_help_posts_result mem lab
  show ?thesis by simp
qed

subsection \<open>Evidence\<close>

text \<open>
  C6 (amended). A detected trait cites at most 2 pieces of evidence: the first
  qualifying items of its rule, in the order of the combined sequence (of the comments,
  for Thoughtful Communicator). Each snippet is the first 100 characters of the item
  text (the first 150 of the comment body for Thoughtful Communicator) followed by
  \<open>...\<close>, which is appended always, also to a text that was not cut. No snippet is
  longer than the cut length plus 3.
\<close>

theorem evidence_snippets:
  assumes "generatePersona array_sort name d = Inr r" and "rl \<in> set catalog"
    and "t \<in> set (traits r)" and "trait t = label rl"
  shows "length (evidence t) \<le> 2
         \<and> evidence t = map (rule_evidence rl) (take 2 (qualifying rl d))
         \<and> map content (evidence t) =
             map (\<lambda>it. take (cut rl) (evidence_text (basis rl) it) @ ''...'')
               (take 2 (qualifying rl d))
         \<and> (\<forall>e\<in>set (evidence t). length (content e) \<le> cut rl + 3)
         \<and> (cut rl = 100 \<or> cut rl = 150)"
proof -
  from trait_of_rule[OF assms]
  have ev: "evidence t = map (rule_evidence rl) (take 2 (qualifying rl d))"
    by (auto simp: detect_def split: if_splits)
  have "cut rl = 100 \<or> cut rl = 150"
    using assms(2) by (auto simp: catalog_def rule_fields)
  then show ?thesis
    unfolding ev by (auto simp: rule_evidence_def)
qed

theorem evidence_snippets_witness:
  "generatePersona stable_sort ''u'' four_help_posts = Inr four_help_posts_persona
   \<and> helpful_rule \<in> set catalog
   \<and> hd (traits four_help_posts_persona) \<in> set (traits four_help_posts_persona)
   \<and> trait (hd (traits four_help_posts_persona)) = label helpful_rule
   \<and> length (evidence (hd (traits four_help_posts_persona))) \<le> 2
   \<and> evidence (hd (traits four_help_posts_persona)) =
       map (rule_evidence helpful_rule) (take 2 (qualifying helpful_rule four_help_posts))"
proof -
  have mem: "helpful_rule \<in> set catalog" by (simp add: catalog_def)
  have t: "hd (traits four_help_posts_persona) \<in> set (traits four_help_posts_persona)"
    by (simp add: four_help_posts_persona_def)
  have lab: "trait (hd (traits four_help_posts_persona)) = label helpful_rule"
    by (simp add: four_help_posts_persona_def rule_fields)
  from evidence_snippets[OF four_help_posts_result mem t lab] four_help_posts_result mem t lab
  show ?thesis by blast
qed

text \<open>
  The claim as first stated, with the ellipsis appended only to a text that was cut, fails
  on four posts titled \<open>help\<close>: the text has 4 characters, nothing is cut, and the
  snippets are \<open>help...\<close>.
\<close>

theorem evidence_ellipsis_counterexample:
  "generatePersona stable_sort ''u'' four_help_posts = Inr four_help_posts_persona
   \<and> take 2 (qualifying helpful_rule four_help_posts)
       = [post_in ''Art'' ''help'' 3, post_in ''Art'' ''help'' 3]
   \<and> item_text (post_in ''Art'' ''help'' 3) = ''help''
   \<and> map content (evidence (hd (traits four_help_posts_persona))) = [''help...'', ''help...'']"
  by (simp add: four_help_posts_result four_help_posts_helpful)
    (simp add: four_help_posts_persona_def post_in_def item_text_def or_else_def)

subsection \<open>The counting object and the ranking\<close>

lemma bump_proto:
  "''__proto__'' \<notin> set (map fst acc) \<Longrightarrow> bump acc ''__proto__'' = acc"
  by (induction acc) auto

lemma bump_keys:
  "map fst (bump acc k) =
     (if k \<in> set (map fst acc) \<or> k = ''__proto__'' then map fst acc else map fst acc @ [k])"
  by (induction acc k rule: bump.induct) auto

lemma set_first_seen: "set (first_seen xs) = set xs"
  by (induction xs) auto

lemma distinct_first_seen: "distinct (first_seen xs)"
  by (induction xs) (auto simp: distinct_removeAll)

lemma foldl_bump_keys:
  "''__proto__'' \<notin> set (map fst acc) \<Longrightarrow>
     map fst (foldl bump acc ks) =
       map fst acc
       @ filter (\<lambda>k. k \<notin> set (map fst acc))
           (first_seen (filter (\<lambda>k. k \<noteq> ''__proto__'') ks))"
proof (induction ks arbitrary: acc)
  case Nil
  then show ?case by simp
next
  case (Cons k ks)
  show ?case
  proof (cases "k = ''__proto__''")
    case True
    with Cons.prems have "bump acc k = acc" by (simp add: bump_proto)
    with True Cons.IH[OF Cons.prems] show ?thesis by simp
  next
    case proto: False
    have inv: "''__proto__'' \<notin> set (map fst (bump acc k))"
      using Cons.prems proto by (auto simp: bump_keys)
    let ?rest = "first_seen (filter (\<lambda>k. k \<noteq> ''__proto__'') ks)"
    show ?thesis
    proof (cases "k \<in> set (map fst acc)")
      case True
      then have "filter (\<lambda>x. x \<notin> set (map fst acc)) (removeAll k ?rest)
                   = filter (\<lambda>x. x \<notin> set (map fst acc)) ?rest"
        by (auto simp: removeAll_filter_not_eq intro: filter_cong)
      with True proto show ?thesis
        by (simp add: Cons.IH[OF inv] bump_keys)
    next
      case False
      then have "filter (\<lambda>x. x \<notin> set (map fst acc) \<and> x \<noteq> k) ?rest
                   = filter (\<lambda>x. x \<notin> set (map fst acc)) (removeAll k ?rest)"
        by (auto simp: removeAll_filter_not_eq intro: filter_cong)
      with False proto show ?thesis
        by (simp add: Cons.IH[OF inv] bump_keys conj_commute)
    qed
  qed
qed

lemma count_subreddits_foldl:
  "count_subreddits xs = foldl bump [] (map subreddit_key xs)"
  by (simp add: count_subreddits_def foldl_map)

lemma count_subreddits_keys:
  "map fst (count_subreddits xs)
     = first_seen (filter (\<lambda>k. k \<noteq> ''__proto__'') (map subreddit_key xs))"
  by (simp add: count_subreddits_foldl foldl_bump_keys)

lemma first_before_filter:
  "a \<noteq> p \<Longrightarrow> b \<noteq> p \<Longrightarrow> first_before (filter (\<lambda>k. k \<noteq> p) xs) a b = first_before xs a b"
  by (induction xs) auto

lemma sorted_first_seen: "sorted_wrt (first_before xs) (first_seen xs)"
proof (induction xs)
  case Nil
  then show ?case by simp
next
  case (Cons x xs)
  have "sorted_wrt (first_before xs) (removeAll x (first_seen xs))"
    unfolding removeAll_filter_not_eq by (rule sorted_wrt_filter) (rule Cons.IH)
  then have "sorted_wrt (first_before (x # xs)) (removeAll x (first_seen xs))"
    by (rule sorted_wrt_mono_rel[rotated]) auto
  moreover have "\<forall>z\<in>set (removeAll x (first_seen xs)). first_before (x # xs) x z"
    by simp
  ultimately show ?case by (simp del: first_before.simps)
qed

lemma bump_map_of_other: "x \<noteq> k \<Longrightarrow> map_of (bump acc x) k = map_of acc k"
  by (induction acc x rule: bump.induct) auto

lemma bump_map_of_same:
  "k \<noteq> ''__proto__'' \<Longrightarrow>
     map_of (bump acc k) k
       = Some (case map_of acc k of None \<Rightarrow> first_value k | Some v \<Rightarrow> increment v)"
  by (induction acc k rule: bump.induct) auto

text \<open>
  The value under a key that is none of the inherited function names is the number of
  times the key was counted.
\<close>

lemma foldl_bump_map_of:
  assumes "k \<noteq> ''__proto__''" and "k \<notin> set function_names"
    and "map_of acc k = None \<or> (\<exists>n. map_of acc k = Some (JNum n))"
  shows "map_of (foldl bump acc ks) k =
           (if k \<in> set ks \<or> k \<in> dom (map_of acc)
            then Some (JNum ((case map_of acc k of None \<Rightarrow> 0 | Some v \<Rightarrow> num_of v)
                              + count_list ks k))
            else None)"
  using assms(3)
proof (induction ks arbitrary: acc)
  case Nil
  then show ?case by (auto split: option.splits)
next
  case (Cons x xs)
  show ?case
  proof (cases "x = k")
    case True
    have step: "map_of (bump acc k) k
                  = Some (JNum (Suc (case map_of acc k of None \<Rightarrow> 0 | Some v \<Rightarrow> num_of v)))"
      using Cons.prems assms(1,2) by (auto simp: bump_map_of_same first_value_def)
    then have "map_of (bump acc k) k = None \<or> (\<exists>n. map_of (bump acc k) k = Some (JNum n))"
      by simp
    from Cons.IH[OF this] step True show ?thesis by auto
  next
    case False
    then have same: "map_of (bump acc x) k = map_of acc k" by (rule bump_map_of_other)
    with Cons.prems
    have "map_of (bump acc x) k = None \<or> (\<exists>n. map_of (bump acc x) k = Some (JNum n))"
      by simp
    from Cons.IH[OF this] same False show ?thesis by (auto simp: dom_def)
  qed
qed

lemma count_subreddits_count:
  assumes "(k, v) \<in> set (count_subreddits xs)" and "k \<notin> set function_names"
  shows "v = JNum (count_list (map subreddit_key xs) k)"
proof -
  have keys: "map fst (count_subreddits xs)
                = first_seen (filter (\<lambda>k. k \<noteq> ''__proto__'') (map subreddit_key xs))"
    by (rule count_subreddits_keys)
  then have "distinct (map fst (count_subreddits xs))"
    by (simp add: distinct_first_seen)
  with assms(1) have v: "map_of (count_subreddits xs) k = Some v" by simp
  from assms(1) have "k \<in> set (map fst (count_subreddits xs))" by force
  then have proto: "k \<noteq> ''__proto__''"
    unfolding keys by (simp add: set_first_seen)
  from v foldl_bump_map_of[OF proto assms(2), of "[]" "map subreddit_key xs"]
  show ?thesis
    by (simp add: count_subreddits_foldl split: if_splits)
qed

lemma keys_origins:
  "\<forall>it\<in>set xs. subreddit it \<noteq> None \<Longrightarrow> map subreddit_key xs = List.map_filter subreddit xs"
  by (induction xs) (auto simp: subreddit_key_def List.map_filter_simps)

lemma count_keys_origin:
  "\<forall>it\<in>set xs. subreddit it \<noteq> None \<Longrightarrow>
     count_list (map subreddit_key xs) s = length (filter (\<lambda>it. subreddit it = Some s) xs)"
  by (induction xs) (auto simp: subreddit_key_def)

lemma set_object_entries: "set (object_entries obj) = set obj"
  by (auto simp: object_entries_def)

lemma length_object_entries: "length (object_entries obj) = length obj"
  by (simp add: object_entries_def sum_length_filter_compl)

lemma length_count_subreddits:
  "length (count_subreddits xs) = card (set (map subreddit_key xs) - {''__proto__''})"
proof -
  have "length (count_subreddits xs) = length (map fst (count_subreddits xs))" by simp
  also have "\<dots> = card (set (first_seen
                       (filter (\<lambda>k. k \<noteq> ''__proto__'') (map subreddit_key xs))))"
    unfolding count_subreddits_keys by (rule distinct_card[symmetric]) (rule distinct_first_seen)
  also have "set (first_seen (filter (\<lambda>k. k \<noteq> ''__proto__'') (map subreddit_key xs)))
               = set (map subreddit_key xs) - {''__proto__''}"
    by (auto simp: set_first_seen)
  finally show ?thesis .
qed

subsection \<open>The engine's sort\<close>

lemma count_list_insert_sorted:
  "count_list (insert_sorted cmp x ys) z = count_list (x # ys) z"
  by (induction ys) auto

lemma count_list_stable_sort: "count_list (stable_sort cmp xs) z = count_list xs z"
  unfolding stable_sort_def by (induction xs) (simp_all add: count_list_insert_sorted)

text \<open>The insertion sort is a conforming sort.\<close>

lemma conforms_stable_sort: "conforms stable_sort"
  by (simp add: conforms_def count_list_stable_sort)

lemma same_counts_set:
  assumes "\<forall>x. count_list ys x = count_list xs x"
  shows "set ys = set xs"
proof -
  have "x \<in> set ys \<longleftrightarrow> x \<in> set xs" for x
    using assms count_list_0_iff[of ys x] count_list_0_iff[of xs x] by auto
  then show ?thesis by blast
qed

lemma same_counts_length:
  assumes "\<forall>x. count_list ys x = count_list xs x"
  shows "length ys = length xs"
proof -
  have s: "set ys = set xs" by (rule same_counts_set[OF assms])
  have "length ys = sum (count_list ys) (set ys)"
    by (rule sum_count_set[symmetric]) simp_all
  also have "\<dots> = sum (count_list xs) (set xs)"
    unfolding s using assms by simp
  also have "\<dots> = length xs"
    by (rule sum_count_set) simp_all
  finally show ?thesis .
qed

lemma conforms_set: "conforms array_sort \<Longrightarrow> set (array_sort cmp xs) = set xs"
  by (rule same_counts_set) (simp add: conforms_def)

lemma conforms_length: "conforms array_sort \<Longrightarrow> length (array_sort cmp xs) = length xs"
  by (rule same_counts_length) (simp add: conforms_def)

text \<open>
  On entries that all hold numbers the comparator is consistent, and the stable sort
  by it is the stable sort by descending count.
\<close>

lemma consistent_numeric:
  assumes "\<forall>kv\<in>S. \<exists>n. snd kv = JNum n"
  shows "consistent compare_counts S"
proof -
  have num: "compare_counts a b = Finite (of_int (int (num_of (snd b)) - int (num_of (snd a))))"
    if "a \<in> S" and "b \<in> S" for a b
  proof -
    from that assms obtain m n where "snd a = JNum m" and "snd b = JNum n" by blast
    then show ?thesis by (simp add: compare_counts_def)
  qed
  show ?thesis
    unfolding consistent_def
  proof (intro conjI ballI impI)
    fix a b assume "a \<in> S" "b \<in> S"
    then show "compare_counts a b \<noteq> NaN" by (simp add: num)
  next
    fix a assume "a \<in> S"
    then show "compare_counts a a = Finite 0" by (simp add: num)
  next
    fix a b assume "a \<in> S" "b \<in> S" "compare_counts a b = Finite 0"
    then show "compare_counts b a = Finite 0" by (simp add: num)
  next
    fix a b c
    assume "a \<in> S" "b \<in> S" "c \<in> S"
      "compare_counts a b = Finite 0 \<and> compare_counts b c = Finite 0"
    then show "compare_counts a c = Finite 0" by (simp add: num)
  next
    fix a b c
    assume "a \<in> S" "b \<in> S" "c \<in> S"
      "negative (compare_counts a b) \<and> negative (compare_counts b c)"
    then show "negative (compare_counts a c)" by (simp add: num)
  next
    fix a b c
    assume "a \<in> S" "b \<in> S" "c \<in> S"
      "positive (compare_counts a b) \<and> positive (compare_counts b c)"
    then show "positive (compare_counts a c)" by (simp add: num)
  qed
qed

lemma insert_sorted_numeric:
  assumes "\<exists>n. snd x = JNum n" and "\<forall>kv\<in>set ys. \<exists>n. snd kv = JNum n"
  shows "insert_sorted compare_counts x ys
           = insort_key (\<lambda>kv. - int (num_of (snd kv))) x ys"
  using assms by (induction ys) (auto simp: compare_counts_def)

lemma stable_sort_numeric:
  assumes "\<forall>kv\<in>set xs. \<exists>n. snd kv = JNum n"
  shows "stable_sort compare_counts xs = sort_key (\<lambda>kv. - int (num_of (snd kv))) xs"
  using assms
proof (induction xs)
  case Nil
  then show ?case by (simp add: stable_sort_def)
next
  case (Cons x xs)
  then have ih: "stable_sort compare_counts xs = sort_key (\<lambda>kv. - int (num_of (snd kv))) xs"
    by simp
  have "stable_sort compare_counts (x # xs)
          = insert_sorted compare_counts x (stable_sort compare_counts xs)"
    by (simp add: stable_sort_def)
  also have "\<dots> = insort_key (\<lambda>kv. - int (num_of (snd kv))) x
                      (sort_key (\<lambda>kv. - int (num_of (snd kv))) xs)"
    unfolding ih using Cons.prems by (intro insert_sorted_numeric) simp_all
  finally show ?case by simp
qed

lemma conforms_numeric:
  assumes "conforms array_sort" and "\<forall>kv\<in>set xs. \<exists>n. snd kv = JNum n"
  shows "array_sort compare_counts xs = sort_key (\<lambda>kv. - int (num_of (snd kv))) xs"
proof -
  from assms(1) consistent_numeric[OF assms(2)]
  have "array_sort compare_counts xs = stable_sort compare_counts xs"
    by (simp add: conforms_def)
  with stable_sort_numeric[OF assms(2)] show ?thesis by simp
qed

lemma sorted_wrt_by_key:
  "(\<And>k. sorted_wrt Q (filter (\<lambda>x. f x = k) xs)) \<Longrightarrow>
     sorted_wrt (\<lambda>a b. f a = f b \<longrightarrow> Q a b) xs"
proof (induction xs)
  case Nil
  then show ?case by simp
next
  case (Cons x xs)
  have tail: "sorted_wrt Q (filter (\<lambda>y. f y = k) xs)" for k
    using Cons.prems[of k] by (simp split: if_splits)
  have head: "\<forall>y\<in>set xs. f x = f y \<longrightarrow> Q x y"
    using Cons.prems[of "f x"] by auto
  from Cons.IH[OF tail] head show ?case by simp
qed

lemma sort_key_keeps_order:
  assumes "sorted_wrt Q xs"
  shows "sorted_wrt (\<lambda>a b. f a = f b \<longrightarrow> Q a b) (sort_key f xs)"
proof (rule sorted_wrt_by_key)
  fix k
  have "filter (\<lambda>x. f x = k) (sort_key f xs) = filter (\<lambda>x. f x = k) xs"
    by (rule sort_key_stable)
  then show "sorted_wrt Q (filter (\<lambda>x. f x = k) (sort_key f xs))"
    using assms by (simp add: sorted_wrt_filter)
qed


lemma object_entries_order:
  assumes "sorted_wrt (\<lambda>a b. P (fst a) (fst b)) obj"
  shows "sorted_wrt
           (\<lambda>a b. if is_array_index (fst a)
                   then (if is_array_index (fst b) then index_value (fst a) \<le> index_value (fst b)
                         else True)
                   else (if is_array_index (fst b) then False else P (fst a) (fst b)))
           (object_entries obj)"
proof -
  let ?S = "sort_key (\<lambda>kv. index_value (fst kv)) (filter (\<lambda>kv. is_array_index (fst kv)) obj)"
  let ?N = "filter (\<lambda>kv. \<not> is_array_index (fst kv)) obj"
  let ?Q = "\<lambda>a b. if is_array_index (fst a)
                   then (if is_array_index (fst b) then index_value (fst a) \<le> index_value (fst b)
                         else True)
                   else (if is_array_index (fst b) then False else P (fst a) (fst b))"
  have "sorted (map (\<lambda>kv. index_value (fst kv)) ?S)" by (rule sorted_sort_key)
  then have "sorted_wrt (\<lambda>a b. index_value (fst a) \<le> index_value (fst b)) ?S"
    by (simp add: sorted_map)
  then have S: "sorted_wrt ?Q ?S"
    by (rule sorted_wrt_mono_rel[rotated]) auto
  have "sorted_wrt (\<lambda>a b. P (fst a) (fst b)) ?N"
    using assms by (rule sorted_wrt_filter)
  then have N: "sorted_wrt ?Q ?N"
    by (rule sorted_wrt_mono_rel[rotated]) auto
  have SN: "\<forall>a\<in>set ?S. \<forall>b\<in>set ?N. ?Q a b" by auto
  show ?thesis
    unfolding object_entries_def sorted_wrt_append using S N SN by blast
qed

subsection \<open>The ranking\<close>

lemma set_ranking:
  "conforms array_sort \<Longrightarrow> set (ranking array_sort d) = set (count_subreddits (combined d))"
  by (simp add: ranking_def conforms_set set_object_entries)

lemma length_ranking:
  assumes "conforms array_sort" and "\<forall>it\<in>set (combined d). subreddit it \<noteq> None"
  shows "length (ranking array_sort d) = card (set (origins d) - {''__proto__''})"
  using assms
  by (simp add: ranking_def conforms_length length_object_entries length_count_subreddits
      keys_origins origins_def)

lemma entries_numeric:
  assumes "\<forall>it\<in>set (combined d). subreddit it \<noteq> None"
    and "\<forall>s\<in>set (origins d). s \<notin> set function_names"
  shows "\<forall>kv\<in>set (object_entries (count_subreddits (combined d))). \<exists>n. snd kv = JNum n"
proof
  fix kv assume "kv \<in> set (object_entries (count_subreddits (combined d)))"
  then have mem: "(fst kv, snd kv) \<in> set (count_subreddits (combined d))"
    by (simp add: set_object_entries)
  then have "fst kv \<in> set (map fst (count_subreddits (combined d)))" by force
  then have "fst kv \<in> set (origins d)"
    unfolding count_subreddits_keys keys_origins[OF assms(1)] origins_def
    by (simp add: set_first_seen)
  with assms(2) have "fst kv \<notin> set function_names" by blast
  from count_subreddits_count[OF mem this] show "\<exists>n. snd kv = JNum n" by blast
qed

lemma ranking_numeric:
  assumes "conforms array_sort" and "\<forall>it\<in>set (combined d). subreddit it \<noteq> None"
    and "\<forall>s\<in>set (origins d). s \<notin> set function_names"
  shows "ranking array_sort d
           = sort_key (\<lambda>kv. - int (num_of (snd kv)))
               (object_entries (count_subreddits (combined d)))"
  unfolding ranking_def
  by (rule conforms_numeric[OF assms(1) entries_numeric[OF assms(2,3)]])

lemma ranking_descending:
  assumes "conforms array_sort" and "\<forall>it\<in>set (combined d). subreddit it \<noteq> None"
    and "\<forall>s\<in>set (origins d). s \<notin> set function_names"
  shows "sorted_wrt (\<lambda>a b. num_of (snd b) \<le> num_of (snd a)) (ranking array_sort d)"
proof -
  have "sorted (map (\<lambda>kv. - int (num_of (snd kv))) (ranking array_sort d))"
    unfolding ranking_numeric[OF assms] by (rule sorted_sort_key)
  then show ?thesis
    by (simp add: sorted_map)
qed

lemma ranking_ties:
  assumes "conforms array_sort" and "\<forall>it\<in>set (combined d). subreddit it \<noteq> None"
    and "\<forall>s\<in>set (origins d). s \<notin> set function_names"
  shows "sorted_wrt (\<lambda>a b. num_of (snd a) = num_of (snd b) \<longrightarrow> entry_before d (fst a) (fst b))
           (ranking array_sort d)"
proof -
  let ?obj = "count_subreddits (combined d)"
  let ?keys = "filter (\<lambda>k. k \<noteq> ''__proto__'') (origins d)"
  have keys: "map fst ?obj = first_seen ?keys"
    by (simp add: count_subreddits_keys keys_origins[OF assms(2)] origins_def)
  have "sorted_wrt (first_before ?keys) (first_seen ?keys)" by (rule sorted_first_seen)
  then have "sorted_wrt (first_before (origins d)) (first_seen ?keys)"
    by (rule sorted_wrt_mono_rel[rotated]) (auto simp: set_first_seen first_before_filter)
  then have "sorted_wrt (\<lambda>a b. first_before (origins d) (fst a) (fst b)) ?obj"
    by (simp add: keys[symmetric] sorted_wrt_map)
  from object_entries_order[where P = "first_before (origins d)", OF this]
  have "sorted_wrt (\<lambda>a b. entry_before d (fst a) (fst b)) (object_entries ?obj)"
    by (simp add: entry_before_def)
  from sort_key_keeps_order[OF this, of "\<lambda>kv. - int (num_of (snd kv))"]
  show ?thesis
    by (simp add: ranking_numeric[OF assms])
qed

subsection \<open>Engagement\<close>

lemma bit_length_le: "n < 2 ^ m \<Longrightarrow> bit_length n \<le> m"
proof (induction m arbitrary: n)
  case 0
  then show ?case by (simp add: bit_length.simps)
next
  case (Suc m)
  then have "n div 2 < 2 ^ m" by simp
  from Suc.IH[OF this] show ?case by (subst bit_length.simps) simp
qed

lemma round_half_even_of_int: "round_half_even (of_int k) = k"
  by (simp add: round_half_even_def)

text \<open>An integer of magnitude below \<open>2^53\<close> is a double.\<close>

lemma fl_of_int:
  assumes "\<bar>k\<bar> < 2 ^ 53"
  shows "fl (of_int k) = Finite (of_int k)"
proof (cases "k = 0")
  case True
  then show ?thesis by (simp add: fl_def)
next
  case False
  define a :: rat where "a = \<bar>of_int k\<bar>"
  have a: "a = of_int \<bar>k\<bar>" by (simp add: a_def)
  from False have "1 \<le> \<bar>k\<bar>" by simp
  then have one: "1 \<le> a" unfolding a by (simp only: of_int_1_le_iff)
  have "nat \<bar>k\<bar> < 2 ^ 53" using assms by (simp add: nat_less_iff)
  then have "bit_length (nat \<bar>k\<bar>) \<le> 53" by (rule bit_length_le)
  moreover have "\<lfloor>a\<rfloor> = \<bar>k\<bar>" unfolding a by (rule floor_of_int)
  ultimately have e: "ilog2 a \<le> 52" using one by (simp add: ilog2_def)
  define q where "q = max (ilog2 a - 52) (- 1074)"
  from e have q: "q \<le> 0" by (simp add: q_def)
  then have "a / pow2 q = of_int (\<bar>k\<bar> * 2 ^ nat (- q))"
    by (cases "q = 0") (simp_all add: pow2_def a)
  then have "round_half_even (a / pow2 q) = \<bar>k\<bar> * 2 ^ nat (- q)"
    by (simp only: round_half_even_of_int)
  then have y: "of_int (round_half_even (a / pow2 q)) * pow2 q = a"
    using q by (cases "q = 0") (simp_all add: pow2_def a)
  have "a < 2 ^ 53" using assms unfolding a by (metis of_int_less_numeral_power_cancel_iff)
  then have small: "\<not> 2 ^ 1024 \<le> a" by simp
  from False have "fl (of_int k) = Finite (if 0 < (of_int k :: rat) then a else - a)"
    unfolding fl_def Let_def a_def[symmetric] q_def[symmetric] y using small by simp
  also have "(if 0 < (of_int k :: rat) then a else - a) = of_int k"
    by (simp add: a_def)
  finally show ?thesis .
qed

text \<open>While the magnitudes sum up to less than \<open>2^53\<close>, the sum of the scores is exact.\<close>

lemma foldl_scores_exact:
  assumes "\<bar>s\<bar> + sum_list (map (\<lambda>it. case score it of None \<Rightarrow> 0 | Some n \<Rightarrow> \<bar>n\<bar>) xs) < 2 ^ 53"
  shows "foldl (\<lambda>sum it. dadd sum (score_or_zero it)) (Finite (of_int s)) xs
           = Finite (of_int (s + sum_list (map (\<lambda>it. case score it of None \<Rightarrow> 0 | Some n \<Rightarrow> n) xs)))"
  using assms
proof (induction xs arbitrary: s)
  case Nil
  then show ?case by simp
next
  case (Cons x xs)
  let ?n = "case score x of None \<Rightarrow> 0 | Some n \<Rightarrow> n"
  have nonneg: "0 \<le> sum_list (map (\<lambda>it. case score it of None \<Rightarrow> 0 | Some n \<Rightarrow> \<bar>n\<bar>) xs)"
    by (rule sum_list_nonneg) (auto split: option.splits)
  have abs_n: "(case score x of None \<Rightarrow> 0 | Some n \<Rightarrow> \<bar>n\<bar>) = \<bar>?n\<bar>"
    by (simp split: option.splits)
  from Cons.prems nonneg have n: "\<bar>?n\<bar> < 2 ^ 53" and sn: "\<bar>s + ?n\<bar> < 2 ^ 53"
    unfolding list.map sum_list.Cons abs_n by linarith+
  have x: "score_or_zero x = Finite (of_int ?n)"
    using fl_of_int[OF n] by (auto simp: score_or_zero_def fl_zero split: option.splits)
  have step: "dadd (Finite (of_int s)) (score_or_zero x) = Finite (of_int (s + ?n))"
    unfolding x using fl_of_int[OF sn] by simp
  have "\<bar>s + ?n\<bar> + sum_list (map (\<lambda>it. case score it of None \<Rightarrow> 0 | Some n \<Rightarrow> \<bar>n\<bar>) xs) < 2 ^ 53"
    using Cons.prems unfolding list.map sum_list.Cons abs_n by linarith
  from Cons.IH[OF this] show ?case
    unfolding foldl_Cons step by (simp add: add.assoc)
qed

lemma total_score_exact:
  assumes "score_magnitudes d < 2 ^ 53"
  shows "total_score d
           = Finite (of_int (sum_list (map (\<lambda>it. case score it of None \<Rightarrow> 0 | Some n \<Rightarrow> n)
                                         (combined d))))"
  using foldl_scores_exact[of 0 "combined d"] assms
  by (simp add: total_score_def score_magnitudes_def)

lemma mean_exact:
  assumes "score_magnitudes d < 2 ^ 53"
  shows "ddiv (total_score d) (length (combined d)) = fl (mean_score d)"
  by (simp add: total_score_exact[OF assms] mean_score_def)

lemma fl_cases: "fl x = PosInfinity \<or> fl x = NegInfinity \<or> (\<exists>y. fl x = Finite y)"
  by (simp add: fl_def Let_def)

lemma hundredths_shape:
  "ddiv (Math_round x) 100 \<in> {NaN, PosInfinity, NegInfinity}
   \<or> (\<exists>k :: int. ddiv (Math_round x) 100 = fl (of_int k / 100))"
  by (cases x) auto

lemma forty_mean: "mean_score forty_posts = 23 / 40"
  by (simp add: mean_score_def forty_posts_def combined_def post_in_def sum_list_replicate)

lemma forty_magnitudes: "score_magnitudes forty_posts = 23"
  by (simp add: score_magnitudes_def forty_posts_def combined_def post_in_def sum_list_replicate)

lemma forty_round:
  "ddiv (Math_round (dmul (fl (23 / 40)) (Finite 100))) 100 = fl (57 / 100)"
  by (simp add: double_defs)

lemma hundredths_differ: "fl (57 / 100) \<noteq> fl (58 / 100)"
  by (simp add: double_defs)

lemma mean_zero:
  assumes "score_magnitudes d = 0"
  shows "mean_score d = 0"
proof -
  let ?xs = "map (\<lambda>it. case score it of None \<Rightarrow> 0 | Some n \<Rightarrow> n) (combined d)"
  have "map abs ?xs = map (\<lambda>it. case score it of None \<Rightarrow> 0 | Some n \<Rightarrow> \<bar>n\<bar>) (combined d)"
    unfolding map_map comp_def by (rule map_cong) (auto split: option.splits)
  with assms have "sum_list (map abs ?xs) = 0" by (simp only: score_magnitudes_def)
  with sum_list_abs[of ?xs] have "sum_list ?xs = 0" by simp
  then show ?thesis by (simp add: mean_score_def)
qed

lemma round_zero: "ddiv (Math_round (dmul (fl 0) (Finite 100))) 100 = Finite 0"
  by (simp add: fl_zero floor_rat_one_div)

text \<open>The error of one rounding: half a unit in the last place.\<close>

lemma pow2_power_int: "pow2 e = power_int 2 e"
  by (simp add: pow2_def power_int_def field_simps)

lemma pow2_pos: "0 < pow2 e"
  by (simp add: pow2_def)

lemma pow2_diff: "pow2 (a - b) = pow2 a / pow2 b"
  by (simp add: pow2_power_int power_int_diff)

lemma bit_length_upper: "n < 2 ^ bit_length n"
proof (induction n rule: bit_length.induct)
  case (1 n)
  show ?case
  proof (cases "n = 0")
    case True
    then show ?thesis by simp
  next
    case False
    from 1[OF False] have "n div 2 < 2 ^ bit_length (n div 2)" .
    then have "n < 2 * 2 ^ bit_length (n div 2)" by linarith
    with False show ?thesis by (subst bit_length.simps) simp
  qed
qed

lemma bit_length_lower: "0 < n \<Longrightarrow> 2 ^ (bit_length n - 1) \<le> n"
proof (induction n rule: bit_length.induct)
  case (1 n)
  then have ne: "n \<noteq> 0" by simp
  show ?case
  proof (cases "n div 2 = 0")
    case True
    with ne show ?thesis
      by (subst bit_length.simps, subst bit_length.simps) simp
  next
    case False
    with 1 ne have ih: "2 ^ (bit_length (n div 2) - 1) \<le> n div 2" by simp
    from False have pos: "0 < bit_length (n div 2)" by (subst bit_length.simps) simp
    have "bit_length n = Suc (bit_length (n div 2))" using ne by (subst bit_length.simps) simp
    then have "(2::nat) ^ (bit_length n - 1) = 2 * 2 ^ (bit_length (n div 2) - 1)"
      using pos by (cases "bit_length (n div 2)") simp_all
    also have "\<dots> \<le> 2 * (n div 2)" using ih by simp
    also have "\<dots> \<le> n" by simp
    finally show ?thesis .
  qed
qed

lemma ilog2_lower:
  assumes "0 < x"
  shows "pow2 (ilog2 x) \<le> x"
proof (cases "1 \<le> x")
  case True
  define n where "n = nat \<lfloor>x\<rfloor>"
  from True have n: "0 < n" by (simp add: n_def)
  from n have b: "0 < bit_length n" by (subst bit_length.simps) simp
  have "(2::rat) ^ (bit_length n - 1) = of_nat (2 ^ (bit_length n - 1))" by simp
  also have "\<dots> \<le> of_nat n"
    using bit_length_lower[OF n] by (simp only: of_nat_le_iff)
  also from True have "of_nat n \<le> x" by (simp add: n_def)
  finally have "2 ^ (bit_length n - 1) \<le> x" .
  moreover have "ilog2 x = int (bit_length n - 1)" using True b by (simp add: ilog2_def n_def)
  ultimately show ?thesis by (simp add: pow2_def)
next
  case False
  define c where "c = nat \<lceil>1 / x\<rceil>"
  define b where "b = bit_length (c - 1)"
  from False assms have "1 < 1 / x" by simp
  then have "1 < \<lceil>1 / x\<rceil>" by linarith
  then have c: "2 \<le> c" unfolding c_def by linarith
  have "1 / x \<le> of_int \<lceil>1 / x\<rceil>" by (rule le_of_int_ceiling)
  also have "of_int \<lceil>1 / x\<rceil> = (of_nat c :: rat)" using c by (simp add: c_def)
  finally have x_c: "1 / x \<le> of_nat c" .
  have "c - 1 < 2 ^ b" unfolding b_def by (rule bit_length_upper)
  then have "c \<le> 2 ^ b" by simp
  then have "(of_nat c :: rat) \<le> of_nat (2 ^ b)" by (simp only: of_nat_le_iff)
  also have "(of_nat (2 ^ b) :: rat) = 2 ^ b" by simp
  finally have "(of_nat c :: rat) \<le> 2 ^ b" .
  with x_c have "1 / x \<le> 2 ^ b" by (rule order_trans)
  with assms have "1 / 2 ^ b \<le> x" by (simp add: field_simps)
  moreover have "ilog2 x = - int b" using False by (simp add: ilog2_def b_def c_def)
  ultimately show ?thesis by (auto simp: pow2_def)
qed

lemma round_half_even_error: "\<bar>of_int (round_half_even r) - r\<bar> \<le> 1 / 2"
proof -
  have "of_int \<lfloor>r\<rfloor> \<le> r" and "r < of_int \<lfloor>r\<rfloor> + 1" by linarith+
  then show ?thesis
    by (auto simp: round_half_even_def Let_def)
qed

lemma fl_error:
  assumes "\<bar>x\<bar> \<le> 2 ^ 1000"
  shows "\<exists>y. fl x = Finite y \<and> \<bar>y - x\<bar> \<le> \<bar>x\<bar> / 2 ^ 53 + 1 / 2 ^ 1075"
proof (cases "x = 0")
  case True
  then show ?thesis by (simp add: fl_def)
next
  case False
  define a where "a = \<bar>x\<bar>"
  define q where "q = max (ilog2 a - 52) (- 1074)"
  define z where "z = of_int (round_half_even (a / pow2 q)) * pow2 q"
  from False have a: "0 < a" by (simp add: a_def)
  have "z - a = (of_int (round_half_even (a / pow2 q)) - a / pow2 q) * pow2 q"
    using pow2_pos[of q] by (simp add: z_def left_diff_distrib)
  then have "\<bar>z - a\<bar> = \<bar>of_int (round_half_even (a / pow2 q)) - a / pow2 q\<bar> * pow2 q"
    using pow2_pos[of q] by (simp only: abs_mult abs_of_pos)
  also have "\<dots> \<le> 1 / 2 * pow2 q"
    using round_half_even_error[of "a / pow2 q"] pow2_pos[of q]
    by (intro mult_right_mono) simp_all
  finally have za: "\<bar>z - a\<bar> \<le> pow2 q / 2" by simp
  have "pow2 q / 2 \<le> a / 2 ^ 53 + 1 / 2 ^ 1075"
  proof (cases "q = - 1074")
    case True
    then have "pow2 q / 2 = 1 / 2 ^ 1075" by (simp add: pow2_def)
    with a show ?thesis by simp
  next
    case False
    then have "q = ilog2 a - 52" by (simp add: q_def max_def split: if_splits)
    then have "pow2 q / 2 = pow2 (ilog2 a) / 2 ^ 53"
      by (simp add: pow2_diff) (simp add: pow2_def)
    also have "\<dots> \<le> a / 2 ^ 53" using ilog2_lower[OF a] by (simp add: divide_right_mono)
    finally show ?thesis by simp
  qed
  with za have err: "\<bar>z - a\<bar> \<le> a / 2 ^ 53 + 1 / 2 ^ 1075" by simp
  have "a / 2 ^ 53 \<le> a" using a by (simp add: field_simps)
  with err have "z \<le> 2 * a + 1 / 2 ^ 1075" by linarith
  also have "\<dots> \<le> 2 * 2 ^ 1000 + 1" using assms by (simp add: a_def)
  also have "\<dots> < (2 ^ 1024 :: rat)" by simp
  finally have small: "\<not> 2 ^ 1024 \<le> z" by simp
  have "fl x = Finite (if 0 < x then z else - z)"
    using False small unfolding fl_def Let_def a_def[symmetric] q_def[symmetric] z_def[symmetric]
    by simp
  moreover have "\<bar>(if 0 < x then z else - z) - x\<bar> = \<bar>z - a\<bar>"
    using False by (auto simp: a_def)
  ultimately show ?thesis using err by (auto simp: a_def)
qed


text \<open>
  The three roundings of \<open>Math.round(avg * 100) / 100\<close>: to the double \<open>avg\<close>, to the
  double product, and to the integer.
\<close>

lemma hundredths_error:
  assumes "\<bar>m\<bar> < 2 ^ 53"
  shows "\<exists>k :: int.
           ddiv (Math_round (dmul (fl m) (Finite 100))) 100 = fl (of_int k / 100)
           \<and> \<bar>of_int k - 100 * m\<bar> \<le> 1 / 2 + rounding_slack m"
proof -
  define u :: rat where "u = 1 / 2 ^ 53"
  define eps :: rat where "eps = 1 / 2 ^ 1075"
  have u: "0 < u" "u \<le> 1" and eps: "0 < eps" "eps \<le> 1" by (simp_all add: u_def eps_def)
  from assms have "\<bar>m\<bar> \<le> 2 ^ 1000" by simp
  from fl_error[OF this] obtain a
    where a: "fl m = Finite a" and am: "\<bar>a - m\<bar> \<le> \<bar>m\<bar> * u + eps"
    by (auto simp: u_def eps_def)
  have mu: "\<bar>m\<bar> * u \<le> \<bar>m\<bar>" using u by (simp add: mult_left_le)
  from am mu have a_le: "\<bar>a\<bar> \<le> 2 * \<bar>m\<bar> + eps" by linarith
  with assms eps have "\<bar>a\<bar> \<le> 2 * 2 ^ 53 + 1" by linarith
  then have "\<bar>a * 100\<bar> \<le> (2 * 2 ^ 53 + 1) * 100" by (simp add: abs_mult)
  also have "\<dots> \<le> (2 ^ 1000 :: rat)" by simp
  finally have "\<bar>a * 100\<bar> \<le> 2 ^ 1000" .
  from fl_error[OF this] obtain b
    where b: "fl (a * 100) = Finite b" and ba: "\<bar>b - a * 100\<bar> \<le> 100 * (\<bar>a\<bar> * u) + eps"
    by (auto simp: u_def eps_def abs_mult)
  define k where "k = \<lfloor>b + 1 / 2\<rfloor>"
  have kb: "of_int k \<le> b + 1 / 2" "b + 1 / 2 < of_int k + 1"
    unfolding k_def by linarith+
  have "\<bar>a\<bar> * u \<le> (2 * \<bar>m\<bar> + eps) * u" using a_le u by (simp add: mult_right_mono)
  also have "\<dots> = 2 * (\<bar>m\<bar> * u) + eps * u" by (simp add: algebra_simps)
  also have "eps * u \<le> eps" using u eps by (simp add: mult_left_le)
  finally have au: "\<bar>a\<bar> * u \<le> 2 * (\<bar>m\<bar> * u) + eps" by simp
  from am ba au kb have "\<bar>of_int k - 100 * m\<bar> \<le> 1 / 2 + 300 * (\<bar>m\<bar> * u) + 201 * eps"
    by linarith
  also have "300 * (\<bar>m\<bar> * u) \<le> \<bar>m\<bar> / 2 ^ 44"
  proof -
    have "300 * (\<bar>m\<bar> * u) = \<bar>m\<bar> * (300 * u)" by simp
    also have "\<dots> \<le> \<bar>m\<bar> * (1 / 2 ^ 44)"
      by (rule mult_left_mono) (simp_all add: u_def)
    finally show ?thesis by simp
  qed
  also have "201 * eps \<le> 1 / 2 ^ 1000" by (simp add: eps_def)
  finally have "\<bar>of_int k - 100 * m\<bar> \<le> 1 / 2 + rounding_slack m"
    by (simp add: rounding_slack_def)
  moreover have "ddiv (Math_round (dmul (fl m) (Finite 100))) 100 = fl (of_int k / 100)"
    by (simp add: a b k_def)
  ultimately show ?thesis by blast
qed

lemma half_up_unique:
  fixes m s :: rat
  assumes "\<bar>of_int k - 100 * m\<bar> \<le> 1 / 2 + s"
    and "s < frac (100 * m + 1 / 2)" and "frac (100 * m + 1 / 2) < 1 - s"
  shows "k = \<lfloor>100 * m + 1 / 2\<rfloor>"
proof -
  define j where "j = \<lfloor>100 * m + 1 / 2\<rfloor>"
  have f: "frac (100 * m + 1 / 2) = 100 * m + 1 / 2 - of_int j"
    by (simp add: frac_def j_def)
  from assms(1,2) have "(of_int j :: rat) - 1 < of_int k" unfolding f by linarith
  then have "(of_int (j - 1) :: rat) < of_int k" by simp
  then have lo: "j - 1 < k" by (simp only: of_int_less_iff)
  from assms(1,3) have "(of_int k :: rat) < of_int j + 1" unfolding f by linarith
  then have "(of_int k :: rat) < of_int (j + 1)" by simp
  then have "k < j + 1" by (simp only: of_int_less_iff)
  with lo show ?thesis unfolding j_def[symmetric] by simp
qed

lemma mean_small:
  assumes "score_magnitudes d < 2 ^ 53"
  shows "\<bar>mean_score d\<bar> < 2 ^ 53"
proof -
  let ?xs = "map (\<lambda>it. case score it of None \<Rightarrow> 0 | Some n \<Rightarrow> n) (combined d)"
  have "map abs ?xs = map (\<lambda>it. case score it of None \<Rightarrow> 0 | Some n \<Rightarrow> \<bar>n\<bar>) (combined d)"
    unfolding map_map comp_def by (rule map_cong) (auto split: option.splits)
  then have "sum_list (map abs ?xs) = score_magnitudes d" by (simp only: score_magnitudes_def)
  with sum_list_abs[of ?xs] assms have "\<bar>sum_list ?xs\<bar> < 2 ^ 53" by simp
  then have s: "\<bar>of_int (sum_list ?xs) :: rat\<bar> < 2 ^ 53"
    by (metis of_int_abs of_int_less_numeral_power_cancel_iff)
  show ?thesis
  proof (cases "combined d = []")
    case True
    then show ?thesis by (simp add: mean_score_def)
  next
    case False
    then have n: "1 \<le> (of_nat (length (combined d)) :: rat)"
      by (simp add: Suc_leI)
    have "\<bar>of_int (sum_list ?xs) :: rat\<bar> / of_nat (length (combined d))
            \<le> \<bar>of_int (sum_list ?xs)\<bar> / 1"
      by (rule divide_left_mono) (use n False in simp_all)
    with s n show ?thesis by (simp add: mean_score_def)
  qed
qed

lemma totals_formula:
  assumes "combined d \<noteq> []" and "generatePersona array_sort name d = Inr r"
  shows "totalPosts (engagement r) = length (posts d)"
    and "totalComments (engagement r) = length (comments d)"
  by (subst generatePersona_nonempty(1)[OF assms], simp)+

lemma avgScore_formula:
  assumes "combined d \<noteq> []" and "generatePersona array_sort name d = Inr r"
  shows "avgScore (engagement r)
           = ddiv (Math_round (dmul (ddiv (total_score d) (length (combined d))) (Finite 100)))
               100"
  by (subst generatePersona_nonempty(1)[OF assms]) simp

text \<open>
  C4 (amended). Whenever the function returns, \<open>totalPosts + totalComments\<close> is the
  number of input items. On the empty input \<open>avgScore\<close> is 0, and so it is on a
  non-empty input whose scores are all 0 or missing. On a non-empty input \<open>avgScore\<close>
  is NaN, an infinity, or the double nearest to \<open>k / 100\<close> for an integer \<open>k\<close>. While
  the magnitudes of the scores sum up to less than \<open>2^53\<close>, \<open>k\<close> lies within
  \<open>1/2 + rounding_slack mean\<close> of the mean score times 100; and \<open>k\<close> is the mean times
  100 rounded half-up, whenever the mean times 100 is farther than the slack from the
  midpoint of two integers. Which neighbour is returned at such a midpoint, or within
  the slack of it, is left open.
\<close>

theorem engagement_totals_and_average:
  assumes "generatePersona array_sort name d = Inr r"
  shows "totalPosts (engagement r) + totalComments (engagement r) = length (combined d)
         \<and> (combined d = [] \<longrightarrow> avgScore (engagement r) = Finite 0)
         \<and> (combined d \<noteq> [] \<longrightarrow>
               (avgScore (engagement r) \<in> {NaN, PosInfinity, NegInfinity}
                \<or> (\<exists>k :: int. avgScore (engagement r) = fl (of_int k / 100)))
               \<and> (score_magnitudes d = 0 \<longrightarrow> avgScore (engagement r) = Finite 0)
               \<and> (score_magnitudes d < 2 ^ 53 \<longrightarrow>
                     (\<exists>k :: int.
                        avgScore (engagement r) = fl (of_int k / 100)
                        \<and> \<bar>of_int k - 100 * mean_score d\<bar>
                              \<le> 1 / 2 + rounding_slack (mean_score d))
                     \<and> (rounding_slack (mean_score d) < frac (100 * mean_score d + 1 / 2)
                          \<and> frac (100 * mean_score d + 1 / 2)
                                < 1 - rounding_slack (mean_score d)
                          \<longrightarrow> avgScore (engagement r)
                                = fl (of_int \<lfloor>100 * mean_score d + 1 / 2\<rfloor> / 100))))"
proof (cases "combined d = []")
  case True
  from generatePersona_degenerate[OF True assms] True show ?thesis by simp
next
  case False
  let ?m = "mean_score d"
  have tot: "totalPosts (engagement r) + totalComments (engagement r) = length (combined d)"
    by (simp add: totals_formula[OF False assms] combined_def)
  note avg = avgScore_formula[OF False assms]
  have shape: "avgScore (engagement r) \<in> {NaN, PosInfinity, NegInfinity}
               \<or> (\<exists>k :: int. avgScore (engagement r) = fl (of_int k / 100))"
    unfolding avg by (rule hundredths_shape)
  have exact: "avgScore (engagement r) = ddiv (Math_round (dmul (fl ?m) (Finite 100))) 100"
    if "score_magnitudes d < 2 ^ 53"
    unfolding avg mean_exact[OF that] ..
  have zero: "avgScore (engagement r) = Finite 0" if "score_magnitudes d = 0"
  proof -
    from that have "score_magnitudes d < 2 ^ 53" by simp
    from exact[OF this] show ?thesis
      unfolding mean_zero[OF that] round_zero .
  qed
  have near: "\<exists>k :: int. avgScore (engagement r) = fl (of_int k / 100)
                \<and> \<bar>of_int k - 100 * ?m\<bar> \<le> 1 / 2 + rounding_slack ?m"
    if "score_magnitudes d < 2 ^ 53"
    unfolding exact[OF that] by (rule hundredths_error[OF mean_small[OF that]])
  have half_up: "avgScore (engagement r) = fl (of_int \<lfloor>100 * ?m + 1 / 2\<rfloor> / 100)"
    if "score_magnitudes d < 2 ^ 53"
      and "rounding_slack ?m < frac (100 * ?m + 1 / 2)
           \<and> frac (100 * ?m + 1 / 2) < 1 - rounding_slack ?m"
  proof -
    from near[OF that(1)] obtain k :: int
      where k: "avgScore (engagement r) = fl (of_int k / 100)"
        and dist: "\<bar>of_int k - 100 * ?m\<bar> \<le> 1 / 2 + rounding_slack ?m"
      by blast
    from that(2) have "k = \<lfloor>100 * ?m + 1 / 2\<rfloor>"
      by (intro half_up_unique[OF dist]) simp_all
    with k show ?thesis by simp
  qed
  from False tot shape zero near half_up show ?thesis by blast
qed

theorem engagement_totals_and_average_witness:
  "generatePersona stable_sort ''u'' four_help_posts = Inr four_help_posts_persona
   \<and> combined four_help_posts \<noteq> []
   \<and> score_magnitudes four_help_posts < 2 ^ 53
   \<and> mean_score four_help_posts = 3
   \<and> rounding_slack (mean_score four_help_posts)
       < frac (100 * mean_score four_help_posts + 1 / 2)
   \<and> frac (100 * mean_score four_help_posts + 1 / 2)
       < 1 - rounding_slack (mean_score four_help_posts)
   \<and> totalPosts (engagement four_help_posts_persona)
       + totalComments (engagement four_help_posts_persona) = length (combined four_help_posts)
   \<and> avgScore (engagement four_help_posts_persona)
       = fl (of_int \<lfloor>100 * mean_score four_help_posts + 1 / 2\<rfloor> / 100)"
proof -
  have ne: "combined four_help_posts \<noteq> []"
    by (simp add: combined_def four_help_posts_def)
  have small: "score_magnitudes four_help_posts < 2 ^ 53"
    by (simp add: score_magnitudes_def combined_def four_help_posts_def post_in_def)
  have mean: "mean_score four_help_posts = 3"
    by (simp add: mean_score_def combined_def four_help_posts_def post_in_def)
  have away: "rounding_slack (mean_score four_help_posts)
                < frac (100 * mean_score four_help_posts + 1 / 2)
              \<and> frac (100 * mean_score four_help_posts + 1 / 2)
                < 1 - rounding_slack (mean_score four_help_posts)"
    unfolding mean by (simp add: rounding_slack_def frac_def floor_rat_numeral)
  from engagement_totals_and_average[OF four_help_posts_result]
    four_help_posts_result ne small mean away
  show ?thesis by blast
qed

text \<open>
  The claim as first stated fails twice. With \<open>avgScore\<close> 0 only on the empty input, it
  fails on a single post of score 0. With the mean rounded half-up, it fails on 40 posts
  of which 23 have score 1 and the others score 0: the mean is 0.575, which half-up
  rounding takes to 0.58; but the double nearest to 0.575 lies below it, its product
  with 100 is the double 57.49999999999999, and \<open>avgScore\<close> is 0.57.
\<close>

theorem average_zero_nonempty_counterexample:
  "generatePersona stable_sort ''u'' one_zero_post = Inr one_zero_post_persona
   \<and> avgScore (engagement one_zero_post_persona) = Finite 0
   \<and> combined one_zero_post = [post_in ''pics'' ''a cat'' 0]
   \<and> (\<exists>r. generatePersona stable_sort ''u'' forty_posts = Inr r
            \<and> avgScore (engagement r) = fl (57 / 100))
   \<and> mean_score forty_posts = 23 / 40
   \<and> \<lfloor>mean_score forty_posts * 100 + 1 / 2\<rfloor> = 58
   \<and> fl (57 / 100) \<noteq> fl (58 / 100)"
proof -
  have one: "avgScore (engagement one_zero_post_persona) = Finite 0
             \<and> combined one_zero_post = [post_in ''pics'' ''a cat'' 0]"
    by (simp add: one_zero_post_persona_def one_zero_post_def combined_def)
  have some: "\<forall>it\<in>set (combined forty_posts). subreddit it \<noteq> None"
    by (auto simp: forty_posts_def combined_def post_in_def)
  have ne: "combined forty_posts \<noteq> []"
    by (simp add: forty_posts_def combined_def)
  from generatePersona_returns[OF some]
  obtain r where r: "generatePersona stable_sort ''u'' forty_posts = Inr r" by blast
  have "avgScore (engagement r)
          = ddiv (Math_round (dmul (ddiv (total_score forty_posts)
                                      (length (combined forty_posts))) (Finite 100))) 100"
    by (rule avgScore_formula[OF ne r])
  also have "ddiv (total_score forty_posts) (length (combined forty_posts)) = fl (23 / 40)"
    by (simp add: mean_exact forty_magnitudes forty_mean)
  finally have "avgScore (engagement r) = fl (57 / 100)"
    by (simp only: forty_round)
  with r have forty: "\<exists>r. generatePersona stable_sort ''u'' forty_posts = Inr r
                          \<and> avgScore (engagement r) = fl (57 / 100)"
    by blast
  have half_up: "\<lfloor>mean_score forty_posts * 100 + 1 / 2\<rfloor> = 58"
    by (simp add: forty_mean floor_rat_numeral)
  from one forty half_up one_zero_post_result forty_mean hundredths_differ
  show ?thesis by blast
qed


subsection \<open>Interests\<close>

text \<open>
  The program depends on the engine's sort through the sorted entries only; and where no
  origin is one of the inherited function names, all conforming sorts give the same
  result.
\<close>

lemma generatePersona_sorter_cong:
  assumes "array_sort compare_counts (object_entries (count_subreddits (combined d)))
             = other compare_counts (object_entries (count_subreddits (combined d)))"
  shows "generatePersona array_sort name d = generatePersona other name d"
  unfolding generatePersona_def Let_def by (simp only: assms[unfolded combined_def])

lemma conforms_same_result:
  assumes "conforms array_sort" and "\<forall>s\<in>set (origins d). s \<notin> set function_names"
  shows "generatePersona array_sort name d = generatePersona stable_sort name d"
proof (cases "\<forall>it\<in>set (combined d). subreddit it \<noteq> None")
  case True
  note num = entries_numeric[OF True assms(2)]
  show ?thesis
    by (rule generatePersona_sorter_cong)
      (simp only: conforms_numeric[OF assms(1) num] conforms_numeric[OF conforms_stable_sort num])
next
  case False
  then have "\<exists>it\<in>set (combined d). subreddit it = None" by simp
  then have "generatePersona array_sort name d = Inl TypeError"
    and "generatePersona stable_sort name d = Inl TypeError"
    by (simp_all only: generatePersona_TypeError_iff)
  then show ?thesis by simp
qed

lemma conforms_short:
  assumes "conforms array_sort" and "length xs \<le> 1"
  shows "array_sort cmp xs = xs"
proof (cases xs)
  case Nil
  with conforms_length[OF assms(1), of cmp xs] show ?thesis by simp
next
  case (Cons x ys)
  with assms(2) have xs: "xs = [x]" by simp
  from conforms_length[OF assms(1), of cmp xs] xs
  obtain y where y: "array_sort cmp xs = [y]"
    by (cases "array_sort cmp xs") auto
  with conforms_set[OF assms(1), of cmp xs] xs show ?thesis by simp
qed

lemma interests_of_ranking:
  assumes "generatePersona array_sort name d = Inr r" and "interests r = Some ins"
  shows "combined d \<noteq> []"
    and "ins = map (\<lambda>(s, c). \<lparr>subreddit_in = s, count = c\<rparr>) (take 5 (ranking array_sort d))"
    and "\<forall>it\<in>set (combined d). subreddit it \<noteq> None"
proof -
  show ne: "combined d \<noteq> []"
  proof
    assume "combined d = []"
    from generatePersona_degenerate[OF this assms(1)] assms(2) show False by simp
  qed
  from assms(2)
  show "ins = map (\<lambda>(s, c). \<lparr>subreddit_in = s, count = c\<rparr>) (take 5 (ranking array_sort d))"
    by (subst (asm) generatePersona_nonempty(1)[OF ne assms(1)]) simp
  show "\<forall>it\<in>set (combined d). subreddit it \<noteq> None"
    by (rule generatePersona_nonempty(2)[OF ne assms(1)])
qed

text \<open>
  C5 (amended). With a conforming sort, whenever the function returns an interests list:
  the count of every entry whose origin is none of the inherited function names is the
  number of items of that origin; and on an input with no such origin the entries are
  sorted non-increasing by count, and two entries of equal count stand in the order in
  which \<open>Object.entries\<close> lists the keys of the counting object: origins that are array
  indices (canonical decimal numerals below \<open>2^32 - 1\<close>) first, by ascending value,
  then the other origins in the order of their first appearance in the item sequence.
\<close>

theorem interests_counts_and_order:
  assumes "conforms array_sort"
    and "generatePersona array_sort name d = Inr r" and "interests r = Some ins"
  shows "(\<forall>e\<in>set ins. subreddit_in e \<notin> set function_names
            \<longrightarrow> count e = JNum (origin_count d (subreddit_in e)))
         \<and> ((\<forall>s\<in>set (origins d). s \<notin> set function_names) \<longrightarrow>
               sorted_wrt (\<lambda>a b. num_of (count b) \<le> num_of (count a)) ins
               \<and> sorted_wrt (\<lambda>a b. count a = count b
                                \<longrightarrow> entry_before d (subreddit_in a) (subreddit_in b)) ins)"
proof (intro conjI ballI impI)
  note facts = interests_of_ranking[OF assms(2,3)]
  fix e assume "e \<in> set ins" and plain: "subreddit_in e \<notin> set function_names"
  then obtain k c where kc: "(k, c) \<in> set (take 5 (ranking array_sort d))"
    and e: "e = \<lparr>subreddit_in = k, count = c\<rparr>"
    unfolding facts(2) by auto
  from kc have "(k, c) \<in> set (ranking array_sort d)" by (rule in_set_takeD)
  then have "(k, c) \<in> set (count_subreddits (combined d))"
    by (simp only: set_ranking[OF assms(1)])
  moreover from plain have "k \<notin> set function_names" by (simp add: e)
  ultimately have "c = JNum (count_list (map subreddit_key (combined d)) k)"
    by (rule count_subreddits_count)
  also have "count_list (map subreddit_key (combined d)) k = origin_count d k"
    unfolding origin_count_def by (rule count_keys_origin[OF facts(3)])
  finally show "count e = JNum (origin_count d (subreddit_in e))" by (simp add: e)
next
  note facts = interests_of_ranking[OF assms(2,3)]
  assume plain: "\<forall>s\<in>set (origins d). s \<notin> set function_names"
  have "sorted_wrt (\<lambda>a b. num_of (snd b) \<le> num_of (snd a)) (take 5 (ranking array_sort d))"
    by (rule sorted_wrt_take) (rule ranking_descending[OF assms(1) facts(3) plain])
  then show "sorted_wrt (\<lambda>a b. num_of (count b) \<le> num_of (count a)) ins"
    unfolding facts(2) by (simp add: sorted_wrt_map case_prod_beta)
next
  note facts = interests_of_ranking[OF assms(2,3)]
  assume plain: "\<forall>s\<in>set (origins d). s \<notin> set function_names"
  have "sorted_wrt (\<lambda>a b. num_of (snd a) = num_of (snd b) \<longrightarrow> entry_before d (fst a) (fst b))
          (ranking array_sort d)"
    by (rule ranking_ties[OF assms(1) facts(3) plain])
  then have "sorted_wrt (\<lambda>a b. snd a = snd b \<longrightarrow> entry_before d (fst a) (fst b))
          (ranking array_sort d)"
    by (rule sorted_wrt_mono_rel[rotated]) simp
  then have "sorted_wrt (\<lambda>a b. snd a = snd b \<longrightarrow> entry_before d (fst a) (fst b))
          (take 5 (ranking array_sort d))"
    by (rule sorted_wrt_take)
  then show "sorted_wrt (\<lambda>a b. count a = count b
                          \<longrightarrow> entry_before d (subreddit_in a) (subreddit_in b)) ins"
    unfolding facts(2) by (simp add: sorted_wrt_map case_prod_beta)
qed

theorem interests_counts_and_order_witness:
  "conforms stable_sort
   \<and> generatePersona stable_sort ''u'' two_origins = Inr two_origins_persona
   \<and> interests two_origins_persona
       = Some [\<lparr>subreddit_in = ''196'', count = JNum 1\<rparr>,
               \<lparr>subreddit_in = ''pics'', count = JNum 1\<rparr>]
   \<and> origins two_origins = [''pics'', ''196'']
   \<and> ''pics'' \<notin> set function_names \<and> ''196'' \<notin> set function_names
   \<and> origin_count two_origins ''196'' = 1
   \<and> origin_count two_origins ''pics'' = 1
   \<and> entry_before two_origins ''196'' ''pics''"
proof -
  have ins: "interests two_origins_persona
       = Some [\<lparr>subreddit_in = ''196'', count = JNum 1\<rparr>,
               \<lparr>subreddit_in = ''pics'', count = JNum 1\<rparr>]"
    by (simp add: two_origins_persona_def)
  have orig: "origins two_origins = [''pics'', ''196'']"
    by (simp add: two_origins_def origins_def combined_def post_in_def List.map_filter_simps)
  have plain: "''pics'' \<notin> set function_names \<and> ''196'' \<notin> set function_names"
    by (simp add: function_names_def)
  from interests_counts_and_order[OF conforms_stable_sort two_origins_result ins]
    conforms_stable_sort two_origins_result ins orig plain
  show ?thesis by simp
qed

text \<open>
  The claim as first stated fails twice. With ties in the order of first appearance, it
  fails on a post in \<open>pics\<close> followed by a post in \<open>196\<close>: both origins count 1,
  \<open>pics\<close> is met first, and the interests list starts with \<open>196\<close>, because the key
  \<open>196\<close> is an array index. With the count the number of items of the origin, it fails
  on a single post in \<open>constructor\<close>: the counting object inherits a function under
  that name, and the count is the text of the function followed by \<open>1\<close>.
\<close>

theorem interests_tie_order_counterexample:
  "generatePersona stable_sort ''u'' two_origins = Inr two_origins_persona
   \<and> origins two_origins = [''pics'', ''196'']
   \<and> map subreddit_in (the (interests two_origins_persona)) = [''196'', ''pics'']
   \<and> map count (the (interests two_origins_persona)) = [JNum 1, JNum 1]
   \<and> generatePersona stable_sort ''u'' constructor_post = Inr constructor_post_persona
   \<and> origin_count constructor_post ''constructor'' = 1
   \<and> map subreddit_in (the (interests constructor_post_persona)) = [''constructor'']
   \<and> map count (the (interests constructor_post_persona))
       = [JStr ''function Object() { [native code] }1'']"
  by (simp add: two_origins_result constructor_post_result)
    (simp add: two_origins_persona_def two_origins_def origins_def combined_def post_in_def
      List.map_filter_simps constructor_post_persona_def constructor_post_def origin_count_def)

text \<open>
  The two inputs of the counterexample give the same result with every conforming sort.
\<close>

lemma two_origins_any_sort:
  assumes "conforms array_sort"
  shows "generatePersona array_sort ''u'' two_origins = Inr two_origins_persona"
proof -
  have "\<forall>s\<in>set (origins two_origins). s \<notin> set function_names"
    by (simp add: two_origins_def origins_def combined_def post_in_def List.map_filter_simps
        function_names_def)
  from conforms_same_result[OF assms this] show ?thesis
    by (simp only: two_origins_result)
qed

lemma constructor_post_any_sort:
  assumes "conforms array_sort"
  shows "generatePersona array_sort ''u'' constructor_post = Inr constructor_post_persona"
proof -
  have "length (object_entries (count_subreddits (combined constructor_post))) \<le> 1"
    by (simp add: constructor_post_def combined_def eval_defs)
  then have "generatePersona array_sort ''u'' constructor_post
               = generatePersona stable_sort ''u'' constructor_post"
    by (intro generatePersona_sorter_cong)
      (simp only: conforms_short[OF assms] conforms_short[OF conforms_stable_sort])
  then show ?thesis by (simp only: constructor_post_result)
qed

subsection \<open>The interests list and the top-origins list\<close>

text \<open>
  With a conforming sort, on a non-empty input on which the function returns, the
  interests list has \<open>min 5 n\<close> entries and the top-origins list \<open>min 3 n\<close>, for \<open>n\<close>
  the number of distinct origins other than \<open>__proto__\<close>; both are prefixes of the same
  ranking, so the top-origins list is the list of the first three interests, as pairs of
  origin and count.
\<close>

lemma top_origins_prefix_of_interests:
  assumes "conforms array_sort"
    and "generatePersona array_sort name d = Inr r" and "combined d \<noteq> []"
  shows "\<exists>ins tops.
           interests r = Some ins \<and> mostActiveSubreddits (engagement r) = Some tops
           \<and> length ins = min 5 (card (set (origins d) - {''__proto__''}))
           \<and> length tops = min 3 (card (set (origins d) - {''__proto__''}))
           \<and> map (\<lambda>e. (subreddit_in e, count e)) ins = take 5 (ranking array_sort d)
           \<and> tops = take 3 (map (\<lambda>e. (subreddit_in e, count e)) ins)"
proof -
  let ?ins = "map (\<lambda>(s, c). \<lparr>subreddit_in = s, count = c\<rparr>) (take 5 (ranking array_sort d))"
  let ?tops = "take 3 (ranking array_sort d)"
  let ?n = "card (set (origins d) - {''__proto__''})"
  note shape = generatePersona_nonempty[OF assms(3,2)]
  have i: "interests r = Some ?ins" by (subst shape(1)) simp
  have t: "mostActiveSubreddits (engagement r) = Some ?tops" by (subst shape(1)) simp
  have len: "length (ranking array_sort d) = ?n"
    by (rule length_ranking[OF assms(1) shape(2)])
  have unmap: "map (\<lambda>e. (subreddit_in e, count e)) ?ins = take 5 (ranking array_sort d)"
    by (simp add: comp_def case_prod_beta)
  have "length ?ins = min 5 ?n" by (simp add: len min.commute)
  moreover have "length ?tops = min 3 ?n" by (simp add: len min.commute)
  moreover have "?tops = take 3 (map (\<lambda>e. (subreddit_in e, count e)) ?ins)"
    unfolding unmap by simp
  ultimately show ?thesis using i t unmap by blast
qed

lemma proto_post_any_sort:
  assumes "conforms array_sort"
  shows "generatePersona array_sort ''u'' proto_post = Inr proto_post_persona"
proof -
  have "length (object_entries (count_subreddits (combined proto_post))) \<le> 1"
    by (simp add: proto_post_def combined_def eval_defs)
  then have "generatePersona array_sort ''u'' proto_post
               = generatePersona stable_sort ''u'' proto_post"
    by (intro generatePersona_sorter_cong)
      (simp only: conforms_short[OF assms] conforms_short[OF conforms_stable_sort])
  then show ?thesis by (simp only: proto_post_result)
qed

text \<open>
  C9. The claim fails on a single post whose origin is \<open>__proto__\<close>: the input is not
  empty and has one distinct origin, but the assignment to the key \<open>__proto__\<close> of the
  counting object stores nothing, so the interests list and the top-origins list are
  both empty, not of length 1.
\<close>

theorem generatePersona_proto_origin_dropped:
  "generatePersona stable_sort ''u'' proto_post = Inr proto_post_persona
   \<and> length (combined proto_post) = 1
   \<and> origins proto_post = [''__proto__'']
   \<and> card (set (origins proto_post)) = 1
   \<and> interests proto_post_persona = Some []
   \<and> mostActiveSubreddits (engagement proto_post_persona) = Some []"
  by (simp add: proto_post_result)
    (simp add: proto_post_persona_def proto_post_def origins_def combined_def post_in_def
      List.map_filter_simps)

subsection \<open>The report\<close>

lemma interests_forEach_acc:
  "interests_forEach acc i es = acc @ interest_lines (i + 1) es"
  by (induction es arbitrary: acc i) simp_all

lemma evidence_forEach_acc:
  "evidence_forEach acc es = acc @ evidence_lines es"
  by (induction es arbitrary: acc) simp_all

lemma traits_forEach_acc:
  "traits_forEach acc i ts = acc @ trait_blocks (i + 1) ts"
  by (induction ts arbitrary: acc i) (simp_all add: Let_def evidence_forEach_acc)

lemma interests_block:
  "(case x of None \<Rightarrow> T
    | Some ins \<Rightarrow>
        if length ins > 0 then interests_forEach (T @ H1 @ H2 @ H3) 0 ins @ N else T)
   = T @ (if x = None \<or> x = Some [] then []
          else H1 @ H2 @ H3 @ interest_lines 1 (the x) @ N)"
  by (cases x) (auto simp: interests_forEach_acc)

lemma traits_block:
  "(if length ts > 0 then traits_forEach (T @ H1 @ H2 @ H3) 0 ts else T)
   = T @ (if ts = [] then [] else H1 @ H2 @ H3 @ trait_blocks 1 ts)"
  by (auto simp: traits_forEach_acc)

lemma active_block:
  "(case x of None \<Rightarrow> T | Some subs \<Rightarrow> T @ H @ f subs @ N)
   = T @ (if x = None then [] else H @ f (the x) @ N)"
  by (cases x) auto

text \<open>The whole report as one concatenation, the clock reading \<open>now\<close> in its place.\<close>

lemma formatPersonaAsText_layout:
  "formatPersonaAsText now p =
     ''REDDIT USER PERSONA ANALYSIS\<newline>'' @ replicate 50 CHR ''='' @ ''\<newline>\<newline>''
     @ ''Username: u/'' @ username p @ ''\<newline>''
     @ ''Generated: '' @ now @ ''\<newline>\<newline>''
     @ ''SUMMARY\<newline>'' @ replicate 20 CHR ''-'' @ ''\<newline>''
     @ summary p @ ''\<newline>\<newline>''
     @ (if interests p = None \<or> interests p = Some [] then []
        else ''TOP INTERESTS (by activity)\<newline>'' @ replicate 30 CHR ''-'' @ ''\<newline>''
             @ interest_lines 1 (the (interests p)) @ ''\<newline>'')
     @ (if traits p = [] then []
        else ''PERSONALITY TRAITS\<newline>'' @ replicate 25 CHR ''-'' @ ''\<newline>''
             @ trait_blocks 1 (traits p))
     @ ''ENGAGEMENT STATISTICS\<newline>'' @ replicate 30 CHR ''-'' @ ''\<newline>''
     @ ''Total Posts: '' @ show_nat (totalPosts (engagement p)) @ ''\<newline>''
     @ ''Total Comments: '' @ show_nat (totalComments (engagement p)) @ ''\<newline>''
     @ ''Average Score: '' @ number_toString (avgScore (engagement p)) @ ''\<newline>''
     @ (if mostActiveSubreddits (engagement p) = None then []
        else ''Most Active Subreddits: ''
             @ join '', ''
                 (map (\<lambda>(sub, c). ''r/'' @ sub) (the (mostActiveSubreddits (engagement p))))
             @ ''\<newline>'')
     @ ''\<newline>'' @ replicate 50 CHR ''-'' @ ''\<newline>''
     @ ''Analysis generated by Reddit Persona Analyzer\<newline>''"
  unfolding formatPersonaAsText_def Let_def interests_block traits_block active_block
  by (simp only: append_assoc)

lemma formatPersonaAsText_around_clock:
  "\<exists>before after. \<forall>now. formatPersonaAsText now p = before @ now @ after"
proof (intro exI allI)
  fix now
  show "formatPersonaAsText now p =
     (''REDDIT USER PERSONA ANALYSIS\<newline>'' @ replicate 50 CHR ''='' @ ''\<newline>\<newline>''
      @ ''Username: u/'' @ username p @ ''\<newline>''
      @ ''Generated: '')
     @ now
     @ (''\<newline>\<newline>''
     @ ''SUMMARY\<newline>'' @ replicate 20 CHR ''-'' @ ''\<newline>''
     @ summary p @ ''\<newline>\<newline>''
     @ (if interests p = None \<or> interests p = Some [] then []
        else ''TOP INTERESTS (by activity)\<newline>'' @ replicate 30 CHR ''-'' @ ''\<newline>''
             @ interest_lines 1 (the (interests p)) @ ''\<newline>'')
     @ (if traits p = [] then []
        else ''PERSONALITY TRAITS\<newline>'' @ replicate 25 CHR ''-'' @ ''\<newline>''
             @ trait_blocks 1 (traits p))
     @ ''ENGAGEMENT STATISTICS\<newline>'' @ replicate 30 CHR ''-'' @ ''\<newline>''
     @ ''Total Posts: '' @ show_nat (totalPosts (engagement p)) @ ''\<newline>''
     @ ''Total Comments: '' @ show_nat (totalComments (engagement p)) @ ''\<newline>''
     @ ''Average Score: '' @ number_toString (avgScore (engagement p)) @ ''\<newline>''
     @ (if mostActiveSubreddits (engagement p) = None then []
        else ''Most Active Subreddits: ''
             @ join '', ''
                 (map (\<lambda>(sub, c). ''r/'' @ sub) (the (mostActiveSubreddits (engagement p))))
             @ ''\<newline>'')
     @ ''\<newline>'' @ replicate 50 CHR ''-'' @ ''\<newline>''
     @ ''Analysis generated by Reddit Persona Analyzer\<newline>'')"
    by (simp only: formatPersonaAsText_layout append_assoc)
qed

lemma formatPersonaAsText_clock_inj:
  "formatPersonaAsText t1 p = formatPersonaAsText t2 p \<Longrightarrow> t1 = t2"
proof -
  assume eq: "formatPersonaAsText t1 p = formatPersonaAsText t2 p"
  from formatPersonaAsText_around_clock[of p]
  obtain A B where "\<forall>now. formatPersonaAsText now p = A @ now @ B" by blast
  with eq have "A @ t1 @ B = A @ t2 @ B" by simp
  then show "t1 = t2" by simp
qed

text \<open>
  C8. The report is the concatenation of its sections. The title (banner, username,
  timestamp), the summary, the engagement totals and the footer are always there. The
  interests section is left out when the interests list is absent or empty, the traits
  section when the trait list is empty, and the line of the most active subreddits when
  the engagement record has no such field.
\<close>

theorem report_sections:
  "formatPersonaAsText now p =
     title_section now p
     @ summary_section p
     @ (case interests p of
          None \<Rightarrow> []
        | Some ins \<Rightarrow> if ins = [] then [] else interests_section ins)
     @ (if traits p = [] then [] else traits_section (traits p))
     @ totals_section (engagement p)
     @ (case mostActiveSubreddits (engagement p) of
          None \<Rightarrow> []
        | Some subs \<Rightarrow> active_line subs)
     @ footer_section"
proof -
  have i: "(case interests p of
              None \<Rightarrow> []
            | Some ins \<Rightarrow> if ins = [] then [] else interests_section ins)
           = (if interests p = None \<or> interests p = Some [] then []
              else interests_section (the (interests p)))"
    by (cases "interests p") simp_all
  have a: "(case mostActiveSubreddits (engagement p) of
              None \<Rightarrow> []
            | Some subs \<Rightarrow> active_line subs)
           = (if mostActiveSubreddits (engagement p) = None then []
              else active_line (the (mostActiveSubreddits (engagement p))))"
    by (cases "mostActiveSubreddits (engagement p)") simp_all
  show ?thesis
    unfolding i a
    unfolding formatPersonaAsText_layout title_section_def summary_section_def
      interests_section_def traits_section_def totals_section_def active_line_def
      footer_section_def
    by (simp only: append_assoc)
qed

text \<open>
  C7 (amended). The report is a function of the persona and of the clock reading that
  the renderer takes: two renderings of the same persona are the same text exactly when
  the two clock readings are the same.
\<close>

theorem render_same_iff_same_clock:
  "formatPersonaAsText t1 p = formatPersonaAsText t2 p \<longleftrightarrow> t1 = t2"
  using formatPersonaAsText_clock_inj[of t1 p t2] by blast

text \<open>
  The claim as first stated, with the text a function of the persona alone, fails on the
  degenerate persona rendered at two instants one second apart.
\<close>

theorem render_twice_counterexample:
  "formatPersonaAsText ''2024-01-01T00:00:00.000Z'' empty_persona
     \<noteq> formatPersonaAsText ''2024-01-01T00:00:01.000Z'' empty_persona"
proof
  assume "formatPersonaAsText ''2024-01-01T00:00:00.000Z'' empty_persona
            = formatPersonaAsText ''2024-01-01T00:00:01.000Z'' empty_persona"
  then have "''2024-01-01T00:00:00.000Z'' = ''2024-01-01T00:00:01.000Z''"
    by (rule formatPersonaAsText_clock_inj)
  then show False by simp
qed

end
